theory Spec2Isabelle
  imports Main
begin

section \<open>Python values, classes and exceptions\<close>

text \<open>
  The client of \<^verbatim>\<open>generic_client.py\<close> moves plain Python data around: the values of a
  request's fields, and the decoded JSON of a reply. Both are values of \<open>pyval\<close>; a
  \<^verbatim>\<open>dict\<close> is an association list in insertion order, whose keys are distinct in Python.
  Numbers are integers (floating point is not modelled).
\<close>

datatype pyval =
    PNone
  | PBool bool
  | PInt int
  | PStr string
  | PList "pyval list"
  | PDict "(string \<times> pyval) list"

type_synonym pydict = "(string \<times> pyval) list"

text \<open>
  A class is known by the names along its method resolution order (itself first); this is
  all that \<^verbatim>\<open>issubclass\<close> and \<^verbatim>\<open>isinstance\<close> look at.
\<close>

type_synonym pyclass = "string list"

definition issubclass :: "pyclass \<Rightarrow> string \<Rightarrow> bool" where
  "issubclass c b = (b \<in> set c)"

text \<open>
  Every \<^verbatim>\<open>raise\<close> of the source, and every exception of a library call it makes, is a
  value of \<open>exn\<close>. \<open>OutsideModel\<close> is not a Python exception: the model of
  \<^verbatim>\<open>str.format_map\<close> answers it on replacement fields it does not interpret.
\<close>

datatype exn =
    TypeError
  | KeyError string
  | ValueError
  | RuntimeError
  | AttributeError
  | ValidationError string
  | OtherError string
  | OutsideModel

subsection \<open>Dictionaries\<close>

text \<open>\<^verbatim>\<open>d[k] = v\<close>: an existing key keeps its place, a new one goes last.\<close>

fun dict_set :: "'k \<Rightarrow> 'v \<Rightarrow> ('k \<times> 'v) list \<Rightarrow> ('k \<times> 'v) list" where
  "dict_set k v [] = [(k, v)]"
| "dict_set k v (p # ps) = (if fst p = k then (k, v) # ps else p # dict_set k v ps)"

definition dict_keys :: "('k \<times> 'v) list \<Rightarrow> 'k list" where
  "dict_keys d = map fst d"

subsection \<open>\<^verbatim>\<open>str()\<close> and \<^verbatim>\<open>str.format_map\<close>\<close>

definition digit_char :: "nat \<Rightarrow> char" where
  "digit_char n = ''0123456789'' ! (n mod 10)"

fun digits_of_nat :: "nat \<Rightarrow> string" where
  "digits_of_nat n =
     (if n < 10 then [digit_char n] else digits_of_nat (n div 10) @ [digit_char n])"

declare digits_of_nat.simps [simp del]

definition str_of_int :: "int \<Rightarrow> string" where
  "str_of_int i = (if i < 0 then CHR ''-'' # digits_of_nat (nat (- i)) else digits_of_nat (nat i))"

fun join_with :: "string \<Rightarrow> string list \<Rightarrow> string" where
  "join_with sep [] = []"
| "join_with sep [x] = x"
| "join_with sep (x # y # zs) = x @ sep @ join_with sep (y # zs)"

text \<open>
  \<^verbatim>\<open>str(v)\<close>. Inside a list or dict Python prints the \<^verbatim>\<open>repr\<close> of a string; the model
  quotes it with single quotes, which is Python's output when the string has no quote,
  backslash or unprintable character.
\<close>

fun py_repr :: "pyval \<Rightarrow> string" where
  "py_repr PNone = ''None''"
| "py_repr (PBool b) = (if b then ''True'' else ''False'')"
| "py_repr (PInt i) = str_of_int i"
| "py_repr (PStr s) = [CHR 0x27] @ s @ [CHR 0x27]"
| "py_repr (PList xs) = ''['' @ join_with '', '' (map py_repr xs) @ '']''"
| "py_repr (PDict kvs) =
     ''{'' @ join_with '', '' (map (\<lambda>kv. [CHR 0x27] @ fst kv @ [CHR 0x27] @ '': '' @ py_repr (snd kv)) kvs) @ ''}''"

definition py_str :: "pyval \<Rightarrow> string" where
  "py_str v = (case v of PStr s \<Rightarrow> s | _ \<Rightarrow> py_repr v)"

text \<open>
  \<^verbatim>\<open>template.format_map(m)\<close> for a mapping \<open>m\<close> of names to strings, read left to right as
  CPython does: \<^verbatim>\<open>{{\<close> and \<^verbatim>\<open>}}\<close> are literal braces, \<^verbatim>\<open>{name}\<close> is replaced by \<open>m[name]\<close>
  and raises \<^verbatim>\<open>KeyError\<close> when \<open>m\<close> has no such key, an empty or numeric name is a
  positional field (\<^verbatim>\<open>ValueError\<close> under \<^verbatim>\<open>format_map\<close>), a brace without its partner is
  a \<^verbatim>\<open>ValueError\<close>. Conversions (\<^verbatim>\<open>!r\<close>), format specifications (\<^verbatim>\<open>:>8\<close>), attribute and
  index access are not interpreted: a field holding one of \<^verbatim>\<open>! : . [\<close> is \<open>OutsideModel\<close>.
\<close>

definition plain_field :: "string \<Rightarrow> bool" where
  "plain_field n = (\<forall>c \<in> set n. c \<notin> set ''!:.['')"

definition positional_field :: "string \<Rightarrow> bool" where
  "positional_field n = (\<forall>c \<in> set n. c \<in> set ''0123456789'')"

definition not_close :: "char \<Rightarrow> bool" where
  "not_close c = (c \<noteq> CHR ''}'')"

function format_map :: "(string \<times> string) list \<Rightarrow> string \<Rightarrow> exn + string" where
  "format_map m [] = Inr []"
| "format_map m (c # cs) =
     (if c = CHR ''{'' then
        (case cs of
           [] \<Rightarrow> Inl ValueError
         | d # ds \<Rightarrow>
             if d = CHR ''{'' then map_sum id ((#) CHR ''{'') (format_map m ds)
             else if dropWhile not_close cs = [] then Inl ValueError
             else if \<not> plain_field (takeWhile not_close cs) then Inl OutsideModel
             else if CHR ''{'' \<in> set (takeWhile not_close cs) then Inl ValueError
             else if positional_field (takeWhile not_close cs) then Inl ValueError
             else (case map_of m (takeWhile not_close cs) of
                     None \<Rightarrow> Inl (KeyError (takeWhile not_close cs))
                   | Some v \<Rightarrow> map_sum id ((@) v) (format_map m (tl (dropWhile not_close cs)))))
      else if c = CHR ''}'' then
        (case cs of
           [] \<Rightarrow> Inl ValueError
         | d # ds \<Rightarrow>
             if d = CHR ''}'' then map_sum id ((#) CHR ''}'') (format_map m ds)
             else Inl ValueError)
      else map_sum id ((#) c) (format_map m cs))"
  by pat_completeness auto
termination
proof (relation "measure (\<lambda>(m, s). length s)")
  show "wf (measure (\<lambda>(m :: (string \<times> string) list, s :: string). length s))" by simp
next
  fix m :: "(string \<times> string) list" and c :: char and cs :: string and d :: char and ds :: string
  assume "cs = d # ds"
  then show "((m, ds), (m, c # cs)) \<in> measure (\<lambda>(m, s). length s)" by simp
next
  fix m :: "(string \<times> string) list" and c :: char and cs :: string and d :: char and ds :: string
  have "length (tl (dropWhile not_close cs)) \<le> length cs"
    using length_dropWhile_le [of not_close cs] by simp
  then show "((m, tl (dropWhile not_close cs)), (m, c # cs)) \<in> measure (\<lambda>(m, s). length s)" by simp
next
  fix m :: "(string \<times> string) list" and c :: char and cs :: string and d :: char and ds :: string
  assume "cs = d # ds"
  then show "((m, ds), (m, c # cs)) \<in> measure (\<lambda>(m, s). length s)" by simp
next
  fix m :: "(string \<times> string) list" and c :: char and cs :: string
  show "((m, cs), (m, c # cs)) \<in> measure (\<lambda>(m, s). length s)" by simp
qed

declare format_map.simps [simp del]


section \<open>Requests, responses and the client\<close>

datatype http_method = GET | POST | PUT | PATCH | DELETE

text \<open>
  What a response object can be: an instance built by the parser of a response schema
  (its class and its content), or the catch-all \<^verbatim>\<open>RequestErrorResponse\<close> with its
  \<^verbatim>\<open>message\<close> and its optional \<^verbatim>\<open>object_data\<close>, a dict whose values are raw JSON or a
  caught exception.
\<close>

datatype odata = OJson pyval | OException exn

datatype response =
    ParsedResponse "pyclass \<times> pyval"
  | RequestErrorResponse string "(string \<times> odata) list option"

text \<open>
  A request instance, as far as the client reads it: its class, its \<^verbatim>\<open>__dict__\<close> (the
  fields of the pydantic model, in declaration order), the names of the fields set
  explicitly at construction (\<^verbatim>\<open>model_fields_set\<close>), and what its methods
  \<^verbatim>\<open>get_endpoint_url\<close>, \<^verbatim>\<open>get_header_fields\<close>, \<^verbatim>\<open>get_http_method\<close>,
  \<^verbatim>\<open>get_success_response_type\<close> (known by its parser \<^verbatim>\<open>from_dict_or_array\<close>),
  \<^verbatim>\<open>is_recovery_enabled\<close> and \<^verbatim>\<open>get_recovery_request_type\<close> return. The request classes
  themselves are declared outside \<^verbatim>\<open>generic_client.py\<close>, so these are inputs.
\<close>

record request =
  request_class :: pyclass
  pydict :: pydict
  model_fields_set :: "string list"
  get_endpoint_url :: string
  get_header_fields :: "string list"
  get_http_method :: http_method
  from_dict_or_array :: "pyval \<Rightarrow> exn + pyclass \<times> pyval"
  is_recovery_enabled :: bool
  get_recovery_request_type :: pyclass

text \<open>
  The client holds the three field-key registries, string enumerations given to
  \<^verbatim>\<open>__init__\<close>: the member map of each, Python name to API name, in definition order.
\<close>

record client =
  header_data_keys :: "(string \<times> string) list"
  path_data_keys :: "(string \<times> string) list"
  query_data_keys :: "(string \<times> string) list"

record parsed_request =
  endpoint_no_query :: string
  request_headers :: pydict
  request_queries :: pydict
  request_params :: pydict
  request_body :: "pydict option"

text \<open>
  \<^verbatim>\<open>hasattr\<close> and \<^verbatim>\<open>getattr\<close> on a request see the fields of the instance. A name that is
  a method or another attribute of the request class only is not covered.
\<close>

definition hasattr :: "request \<Rightarrow> string \<Rightarrow> bool" where
  "hasattr r k = (map_of (pydict r) k \<noteq> None)"

definition getattr :: "request \<Rightarrow> string \<Rightarrow> exn + pyval" where
  "getattr r k = (case map_of (pydict r) k of None \<Rightarrow> Inl AttributeError | Some v \<Rightarrow> Inr v)"

text \<open>
  \<^verbatim>\<open>model_dump(exclude_none=True, exclude_unset=True, exclude=...)\<close> of pydantic, on the
  fields of the model itself: a field is dumped under its own name when it was set
  explicitly, is not \<^verbatim>\<open>None\<close> and is not excluded. Field values are dumped as they are.
\<close>

definition model_dump :: "request \<Rightarrow> string set \<Rightarrow> pydict" where
  "model_dump r exclude =
     filter (\<lambda>kv. fst kv \<in> set (model_fields_set r) \<and> snd kv \<noteq> PNone \<and> fst kv \<notin> exclude) (pydict r)"

section \<open>Marshalling: \<^verbatim>\<open>_validate_and_prepare_request\<close>\<close>

definition get_specified_data_keys :: "(string \<times> string) list \<Rightarrow> request \<Rightarrow> (string \<times> string) list" where
  "get_specified_data_keys data_keys r =
     filter (\<lambda>kv. hasattr r (fst kv) \<and> getattr r (fst kv) \<noteq> Inr PNone) data_keys"

text \<open>
  The loop over \<open>specified_paths\<close>: each pass formats the whole URL with a mapping of one
  key, and an exception of \<^verbatim>\<open>format_map\<close> or \<^verbatim>\<open>getattr\<close> leaves the loop.
\<close>

fun substitute_paths :: "request \<Rightarrow> (string \<times> string) list \<Rightarrow> string \<Rightarrow> exn + string" where
  "substitute_paths r [] url = Inr url"
| "substitute_paths r (kv # rest) url =
     (case getattr r (fst kv) of
        Inl e \<Rightarrow> Inl e
      | Inr v \<Rightarrow>
         (case format_map [(snd kv, py_str v)] url of
            Inl e \<Rightarrow> Inl e
          | Inr url' \<Rightarrow> substitute_paths r rest url'))"

text \<open>
  The variables of the method while the loop over \<^verbatim>\<open>api_request.__dict__\<close> runs:
  \<open>self\<close> and \<open>api_request\<close> as the caller passed them, and the locals the loop reads and
  writes.
\<close>

record frame =
  self :: client
  api_request :: request
  specified_headers :: "(string \<times> string) list"
  specified_paths :: "(string \<times> string) list"
  specified_queries :: "(string \<times> string) list"
  extra_header_keys :: "string list"
  request_params_dict :: pydict
  request_headers_dict :: pydict
  request_queries_dict :: pydict

definition endswith :: "string \<Rightarrow> string \<Rightarrow> bool" where
  "endswith s suffix = (length suffix \<le> length s \<and> drop (length s - length suffix) s = suffix)"

text \<open>One pass of the loop body, for the item \<open>(request_key, request_value)\<close>.\<close>

definition classify_field :: "string \<times> pyval \<Rightarrow> frame \<Rightarrow> frame" where
  "classify_field item f =
     (let request_key = fst item; request_value = snd item in
      if request_key \<in> set (dict_keys (specified_paths f)) then f
      else if request_key \<in> set (dict_keys (specified_headers f)) then
        f\<lparr>request_headers_dict := dict_set request_key request_value (request_headers_dict f)\<rparr>
      else if request_key \<in> set (extra_header_keys f) then
        (let api_name = (if \<not> endswith request_key ''_'' then request_key else butlast request_key) in
         f\<lparr>specified_headers := dict_set request_key api_name (specified_headers f),
           request_headers_dict := dict_set request_key request_value (request_headers_dict f)\<rparr>)
      else if request_key \<in> set (dict_keys (specified_queries f)) then
        f\<lparr>request_queries_dict := dict_set request_key request_value (request_queries_dict f)\<rparr>
      else
        f\<lparr>request_params_dict := dict_set request_key request_value (request_params_dict f)\<rparr>)"

text \<open>
  The whole method, in state-passing style: its outcome (the exception raised or the
  \<^verbatim>\<open>_ParsedRequest\<close> returned) together with the client and the request object as the
  call leaves them.
\<close>

definition run_validate_and_prepare_request ::
  "client \<Rightarrow> request \<Rightarrow> (exn + parsed_request) \<times> client \<times> request" where
  "run_validate_and_prepare_request c r =
     (if \<not> issubclass (request_class r) ''BaseRequest'' then (Inl TypeError, c, r)
      else
        let sh = get_specified_data_keys (header_data_keys c) r;
            sp = get_specified_data_keys (path_data_keys c) r;
            sq = get_specified_data_keys (query_data_keys c) r
        in (case substitute_paths r sp (get_endpoint_url r) of
              Inl e \<Rightarrow> (Inl e, c, r)
            | Inr url \<Rightarrow>
               (let f0 = \<lparr>self = c, api_request = r,
                          specified_headers = sh, specified_paths = sp, specified_queries = sq,
                          extra_header_keys = get_header_fields r,
                          request_params_dict = [], request_headers_dict = [],
                          request_queries_dict = []\<rparr>;
                    f = fold classify_field (pydict (api_request f0)) f0;
                    all_fields_to_exclude_from_body =
                      set (dict_keys (specified_headers f) @ dict_keys (specified_paths f)
                           @ dict_keys (specified_queries f) @ extra_header_keys f);
                    request_body_data_dict = model_dump (api_request f) all_fields_to_exclude_from_body
                in (Inr \<lparr>endpoint_no_query = url,
                         request_headers = request_headers_dict f,
                         request_queries = request_queries_dict f,
                         request_params = request_params_dict f,
                         request_body = (if request_body_data_dict = [] then None
                                         else Some request_body_data_dict)\<rparr>,
                    self f, api_request f))))"

definition validate_and_prepare_request :: "client \<Rightarrow> request \<Rightarrow> exn + parsed_request" where
  "validate_and_prepare_request c r = fst (run_validate_and_prepare_request c r)"


section \<open>The response resolver: \<^verbatim>\<open>_after_request_handling\<close>\<close>

text \<open>
  The reply of the remote service as \<^verbatim>\<open>requests\<close> hands it over: its status code and
  what its \<^verbatim>\<open>json()\<close> decodes. The resolver is called with a Python object: the
  blocking methods pass the \<^verbatim>\<open>requests.Response\<close> itself, the non-blocking ones pass
  what \<^verbatim>\<open>await response.json()\<close> returned, the decoded JSON.
\<close>

record reply =
  status_code :: int
  json :: pyval

datatype raw_response = ResponseObject reply | DecodedJson pyval

text \<open>\<^verbatim>\<open>len(x)\<close> and \<^verbatim>\<open>"..." in x\<close> on decoded JSON.\<close>

fun py_len :: "pyval \<Rightarrow> exn + nat" where
  "py_len (PStr s) = Inr (length s)"
| "py_len (PList xs) = Inr (length xs)"
| "py_len (PDict kvs) = Inr (length kvs)"
| "py_len _ = Inl TypeError"

fun is_substring :: "string \<Rightarrow> string \<Rightarrow> bool" where
  "is_substring p [] = (p = [])"
| "is_substring p (c # cs) = (take (length p) (c # cs) = p \<or> is_substring p cs)"

fun py_in :: "string \<Rightarrow> pyval \<Rightarrow> exn + bool" where
  "py_in k (PStr s) = Inr (is_substring k s)"
| "py_in k (PList xs) = Inr (PStr k \<in> set xs)"
| "py_in k (PDict kvs) = Inr (k \<in> set (dict_keys kvs))"
| "py_in k _ = Inl TypeError"

text \<open>
  Modelled from the spec: the constructor call \<^verbatim>\<open>RequestErrorResponse(**kwargs)\<close>; the class
  is declared in \<^verbatim>\<open>horde_sdk.generic_api.apimodels\<close>, outside the given sources. The spec
  describes the error variant as a message string with an optional diagnostic payload,
  built by a validation layer that raises on mismatch: a \<^verbatim>\<open>message\<close> that is not a string
  is a \<^verbatim>\<open>ValidationError\<close>. Unpacking \<^verbatim>\<open>**\<close> anything but a mapping is a \<^verbatim>\<open>TypeError\<close>.
\<close>

fun new_RequestErrorResponse :: "pyval \<Rightarrow> exn + response" where
  "new_RequestErrorResponse (PDict kwargs) =
     (case map_of kwargs ''message'' of
        Some (PStr s) \<Rightarrow> Inr (RequestErrorResponse s None)
      | _ \<Rightarrow> Inl (ValidationError ''message''))"
| "new_RequestErrorResponse _ = Inl TypeError"

definition isinstance :: "pyclass \<times> pyval \<Rightarrow> string \<Rightarrow> bool" where
  "isinstance obj cls = issubclass (fst obj) cls"

definition mismatch_message :: string where
  "mismatch_message =
     ''The response type doesn't match expected one! See `object_data` for the raw response.''"

text \<open>
  In the \<^verbatim>\<open>except ValidationError\<close> branch \<open>handled_response\<close> is still \<^verbatim>\<open>None\<close>, which is
  an instance of no response class, so the guard there holds and the error response is
  built. Exceptions other than \<^verbatim>\<open>ValidationError\<close> are not caught.
\<close>

definition after_request_handling ::
  "request \<Rightarrow> raw_response \<Rightarrow> string \<Rightarrow> exn + response" where
  "after_request_handling r raw expected_response =
     (case raw of
        DecodedJson j \<Rightarrow> Inl AttributeError
      | ResponseObject rep \<Rightarrow>
         (let raw_response_json = json rep in
          if status_code rep \<ge> 400 then
            (case py_len raw_response_json of
               Inl e \<Rightarrow> Inl e
             | Inr n \<Rightarrow>
                if n = 1 then
                  (case py_in ''message'' raw_response_json of
                     Inl e \<Rightarrow> Inl e
                   | Inr b \<Rightarrow>
                      if b then new_RequestErrorResponse raw_response_json
                      else Inl RuntimeError)
                else Inl RuntimeError)
          else
            (case from_dict_or_array r raw_response_json of
               Inr parsed_response \<Rightarrow>
                 if isinstance parsed_response expected_response then Inr (ParsedResponse parsed_response)
                 else Inr (RequestErrorResponse mismatch_message
                             (Some [(''raw_response'', OJson raw_response_json)]))
             | Inl (ValidationError d) \<Rightarrow>
                 Inr (RequestErrorResponse mismatch_message
                        (Some [(''exception'', OException (ValidationError d)),
                               (''raw_response'', OJson raw_response_json)]))
             | Inl e \<Rightarrow> Inl e)))"

section \<open>The dispatcher\<close>

text \<open>
  One HTTP call as the client makes it (\<^verbatim>\<open>requests.get\<close>, \<^verbatim>\<open>session.post\<close>, ...): the verb,
  the URL, and the keyword arguments \<^verbatim>\<open>headers\<close>, \<^verbatim>\<open>params\<close>, \<^verbatim>\<open>json\<close> and
  \<^verbatim>\<open>allow_redirects\<close>. The remote service is a function from the call to its reply; every
  method returns its outcome and the calls it issued, in order.
\<close>

record http_call =
  call_method :: http_method
  call_url :: string
  call_headers :: pydict
  call_params :: pydict
  call_json :: "pydict option"
  allow_redirects :: bool

type_synonym transport = "http_call \<Rightarrow> reply"

definition http_request :: "http_method \<Rightarrow> parsed_request \<Rightarrow> pydict option \<Rightarrow> http_call" where
  "http_request m p body =
     \<lparr>call_method = m, call_url = endpoint_no_query p, call_headers = request_headers p,
      call_params = request_queries p, call_json = body, allow_redirects = True\<rparr>"

definition get :: "client \<Rightarrow> request \<Rightarrow> string \<Rightarrow> transport \<Rightarrow> (exn + response) \<times> http_call list" where
  "get c r expected_response net =
     (case validate_and_prepare_request c r of
        Inl e \<Rightarrow> (Inl e, [])
      | Inr parsed_request \<Rightarrow>
          if request_body parsed_request \<noteq> None then (Inl RuntimeError, [])
          else (let call = http_request GET parsed_request None;
                    raw_response = net call
                in (after_request_handling r (ResponseObject raw_response) expected_response, [call])))"

definition async_get :: "client \<Rightarrow> request \<Rightarrow> string \<Rightarrow> transport \<Rightarrow> (exn + response) \<times> http_call list" where
  "async_get c r expected_response net =
     (case validate_and_prepare_request c r of
        Inl e \<Rightarrow> (Inl e, [])
      | Inr parsed_request \<Rightarrow>
          if request_body parsed_request \<noteq> None then (Inl RuntimeError, [])
          else (let call = http_request GET parsed_request None;
                    raw_response = json (net call)
                in (after_request_handling r (DecodedJson raw_response) expected_response, [call])))"

definition post :: "client \<Rightarrow> request \<Rightarrow> string \<Rightarrow> transport \<Rightarrow> (exn + response) \<times> http_call list" where
  "post c r expected_response net =
     (case validate_and_prepare_request c r of
        Inl e \<Rightarrow> (Inl e, [])
      | Inr parsed_request \<Rightarrow>
          (let call = http_request POST parsed_request (request_body parsed_request);
               raw_response = net call
           in (after_request_handling r (ResponseObject raw_response) expected_response, [call])))"

definition async_post :: "client \<Rightarrow> request \<Rightarrow> string \<Rightarrow> transport \<Rightarrow> (exn + response) \<times> http_call list" where
  "async_post c r expected_response net =
     (case validate_and_prepare_request c r of
        Inl e \<Rightarrow> (Inl e, [])
      | Inr parsed_request \<Rightarrow>
          (let call = http_request POST parsed_request (request_body parsed_request);
               raw_response = json (net call)
           in (after_request_handling r (DecodedJson raw_response) expected_response, [call])))"

definition put :: "client \<Rightarrow> request \<Rightarrow> string \<Rightarrow> transport \<Rightarrow> (exn + response) \<times> http_call list" where
  "put c r expected_response net =
     (case validate_and_prepare_request c r of
        Inl e \<Rightarrow> (Inl e, [])
      | Inr parsed_request \<Rightarrow>
          (let call = http_request PUT parsed_request (request_body parsed_request);
               raw_response = net call
           in (after_request_handling r (ResponseObject raw_response) expected_response, [call])))"

definition async_put :: "client \<Rightarrow> request \<Rightarrow> string \<Rightarrow> transport \<Rightarrow> (exn + response) \<times> http_call list" where
  "async_put c r expected_response net =
     (case validate_and_prepare_request c r of
        Inl e \<Rightarrow> (Inl e, [])
      | Inr parsed_request \<Rightarrow>
          (let call = http_request PUT parsed_request (request_body parsed_request);
               raw_response = json (net call)
           in (after_request_handling r (DecodedJson raw_response) expected_response, [call])))"

definition patch :: "client \<Rightarrow> request \<Rightarrow> string \<Rightarrow> transport \<Rightarrow> (exn + response) \<times> http_call list" where
  "patch c r expected_response net =
     (case validate_and_prepare_request c r of
        Inl e \<Rightarrow> (Inl e, [])
      | Inr parsed_request \<Rightarrow>
          (let call = http_request PATCH parsed_request (request_body parsed_request);
               raw_response = net call
           in (after_request_handling r (ResponseObject raw_response) expected_response, [call])))"

definition async_patch :: "client \<Rightarrow> request \<Rightarrow> string \<Rightarrow> transport \<Rightarrow> (exn + response) \<times> http_call list" where
  "async_patch c r expected_response net =
     (case validate_and_prepare_request c r of
        Inl e \<Rightarrow> (Inl e, [])
      | Inr parsed_request \<Rightarrow>
          (let call = http_request PATCH parsed_request (request_body parsed_request);
               raw_response = json (net call)
           in (after_request_handling r (DecodedJson raw_response) expected_response, [call])))"

definition delete :: "client \<Rightarrow> request \<Rightarrow> string \<Rightarrow> transport \<Rightarrow> (exn + response) \<times> http_call list" where
  "delete c r expected_response net =
     (case validate_and_prepare_request c r of
        Inl e \<Rightarrow> (Inl e, [])
      | Inr parsed_request \<Rightarrow>
          (let call = http_request DELETE parsed_request (request_body parsed_request);
               raw_response = net call
           in (after_request_handling r (ResponseObject raw_response) expected_response, [call])))"

definition async_delete :: "client \<Rightarrow> request \<Rightarrow> string \<Rightarrow> transport \<Rightarrow> (exn + response) \<times> http_call list" where
  "async_delete c r expected_response net =
     (case validate_and_prepare_request c r of
        Inl e \<Rightarrow> (Inl e, [])
      | Inr parsed_request \<Rightarrow>
          (let call = http_request DELETE parsed_request (request_body parsed_request);
               raw_response = json (net call)
           in (after_request_handling r (DecodedJson raw_response) expected_response, [call])))"

text \<open>\<^verbatim>\<open>submit_request\<close> and \<^verbatim>\<open>async_submit_request\<close> pick the method named after the verb.\<close>

definition submit_request :: "client \<Rightarrow> request \<Rightarrow> string \<Rightarrow> transport \<Rightarrow> (exn + response) \<times> http_call list" where
  "submit_request c r expected_response_type net =
     (case get_http_method r of
        GET \<Rightarrow> get c r expected_response_type net
      | POST \<Rightarrow> post c r expected_response_type net
      | PUT \<Rightarrow> put c r expected_response_type net
      | PATCH \<Rightarrow> patch c r expected_response_type net
      | DELETE \<Rightarrow> delete c r expected_response_type net)"

definition async_submit_request :: "client \<Rightarrow> request \<Rightarrow> string \<Rightarrow> transport \<Rightarrow> (exn + response) \<times> http_call list" where
  "async_submit_request c r expected_response_type net =
     (case get_http_method r of
        GET \<Rightarrow> async_get c r expected_response_type net
      | POST \<Rightarrow> async_post c r expected_response_type net
      | PUT \<Rightarrow> async_put c r expected_response_type net
      | PATCH \<Rightarrow> async_patch c r expected_response_type net
      | DELETE \<Rightarrow> async_delete c r expected_response_type net)"

section \<open>The recovery handler: \<^verbatim>\<open>HordeRequestHandler\<close>\<close>

text \<open>
  The handler's only instance attribute is the request given to \<^verbatim>\<open>__init__\<close>
  (\<^verbatim>\<open>response\<close> is annotated on the class and never assigned).
\<close>

record handler =
  handler_request :: request

datatype printed = ErrorLine exn

definition mappable_base_types :: "string list" where
  "mappable_base_types =
     [''BaseRequestAuthenticated'', ''BaseRequestUserSpecific'', ''BaseRequestWorkerDriven'']"

text \<open>
  The inner loop, \<^verbatim>\<open>for key in base_type.model_fields: request_params[key] =
  getattr(self.request, key)\<close>. \<^verbatim>\<open>getattr\<close> has no default: a missing attribute raises.
\<close>

fun copy_fields :: "request \<Rightarrow> string list \<Rightarrow> pydict \<Rightarrow> exn + pydict" where
  "copy_fields r [] params = Inr params"
| "copy_fields r (key # keys) params =
     (case getattr r key of
        Inl e \<Rightarrow> Inl e
      | Inr v \<Rightarrow> copy_fields r keys (dict_set key v params))"

text \<open>
  The outer loop over the base types. The three base classes are declared outside the
  given sources; \<open>model_fields\<close> gives the field names of each, by class name.
\<close>

fun map_base_types ::
  "(string \<Rightarrow> string list) \<Rightarrow> request \<Rightarrow> pyclass \<Rightarrow> string list \<Rightarrow> pydict \<Rightarrow> exn + pydict" where
  "map_base_types model_fields r recovery_request_type [] params = Inr params"
| "map_base_types model_fields r recovery_request_type (base_type # rest) params =
     (if issubclass recovery_request_type base_type then
        (case copy_fields r (model_fields base_type) params of
           Inl e \<Rightarrow> Inl e
         | Inr params' \<Rightarrow>
             map_base_types model_fields r recovery_request_type rest params')
      else map_base_types model_fields r recovery_request_type rest params)"

text \<open>
  \<^verbatim>\<open>__exit__\<close>, given the exception in flight if there is one: what it returns or raises,
  the handler as it leaves it, and what it printed.
\<close>

definition exit_hook ::
  "(string \<Rightarrow> string list) \<Rightarrow> handler \<Rightarrow> exn option \<Rightarrow> (exn + pyval) \<times> handler \<times> printed list" where
  "exit_hook model_fields h exc =
     (case exc of
        None \<Rightarrow> (Inr PNone, h, [])
      | Some exc_val \<Rightarrow>
          if \<not> is_recovery_enabled (handler_request h) then (Inr PNone, h, [ErrorLine exc_val])
          else
            (let recovery_request_type = get_recovery_request_type (handler_request h) in
             case map_base_types model_fields (handler_request h) recovery_request_type
                    mappable_base_types [] of
               Inl e \<Rightarrow> (Inl e, h, [ErrorLine exc_val])
             | Inr params \<Rightarrow> (Inr PNone, h, [ErrorLine exc_val])))"

text \<open>
  Python's \<^verbatim>\<open>with\<close> statement: truthiness of the value \<^verbatim>\<open>__exit__\<close> returns decides whether
  the exception in flight is swallowed; an exception raised by \<^verbatim>\<open>__exit__\<close> itself replaces it.
\<close>

fun truthy :: "pyval \<Rightarrow> bool" where
  "truthy PNone = False"
| "truthy (PBool b) = b"
| "truthy (PInt i) = (i \<noteq> 0)"
| "truthy (PStr s) = (s \<noteq> [])"
| "truthy (PList xs) = (xs \<noteq> [])"
| "truthy (PDict kvs) = (kvs \<noteq> [])"

definition propagated :: "exn \<Rightarrow> exn + pyval \<Rightarrow> exn option" where
  "propagated exc_val exit_result =
     (case exit_result of
        Inl e \<Rightarrow> Some e
      | Inr v \<Rightarrow> if truthy v then None else Some exc_val)"


section \<open>Example requests and replies\<close>

text \<open>
  Concrete inputs in the shape of the AI-Horde client: the key registries, the request of
  the test fixture (\<^verbatim>\<open>ImageGenerateAsyncRequest\<close> with an API key, a prompt and a model),
  status requests on \<^verbatim>\<open>/v2/generate/status/{id}\<close>, and replies of the service.
\<close>

definition ai_horde_client :: client where
  "ai_horde_client =
     \<lparr>header_data_keys = [(''apikey'', ''apikey''), (''accept'', ''accept'')],
      path_data_keys = [(''id_'', ''id'')],
      query_data_keys = [(''type'', ''type'')]\<rparr>"

definition parse_id_response :: "string \<Rightarrow> pyval \<Rightarrow> exn + pyclass \<times> pyval" where
  "parse_id_response cls j =
     (case j of
        PDict kvs \<Rightarrow>
          (case map_of kvs ''id'' of
             Some (PStr s) \<Rightarrow> Inr ([cls, ''BaseResponse''], j)
           | _ \<Rightarrow> Inl (ValidationError ''id''))
      | _ \<Rightarrow> Inl (ValidationError ''id''))"

definition generate_async_request :: request where
  "generate_async_request =
     \<lparr>request_class = [''ImageGenerateAsyncRequest'', ''BaseRequestAuthenticated'', ''BaseRequest''],
      pydict = [(''apikey'', PStr ''0000000000''), (''prompt'', PStr ''a cat in a hat''),
                (''models'', PList [PStr ''Deliberate''])],
      model_fields_set = [''apikey'', ''prompt'', ''models''],
      get_endpoint_url = ''/v2/generate/async'',
      get_header_fields = [],
      get_http_method = POST,
      from_dict_or_array = parse_id_response ''ImageGenerateAsyncResponse'',
      is_recovery_enabled = True,
      get_recovery_request_type =
        [''DeleteImageGenerateRequest'', ''BaseRequestAuthenticated'', ''BaseRequest'']\<rparr>"

definition status_request :: "pydict \<Rightarrow> request" where
  "status_request d =
     \<lparr>request_class = [''ImageGenerateStatusRequest'', ''BaseImageJobRequest'', ''BaseRequest''],
      pydict = d,
      model_fields_set = dict_keys d,
      get_endpoint_url = ''/v2/generate/status/{id}'',
      get_header_fields = [''from_''],
      get_http_method = GET,
      from_dict_or_array = parse_id_response ''ImageGenerateStatusResponse'',
      is_recovery_enabled = True,
      get_recovery_request_type =
        [''UserCleanupRequest'', ''BaseRequestUserSpecific'', ''BaseRequest'']\<rparr>"

definition base_model_fields :: "string \<Rightarrow> string list" where
  "base_model_fields cls =
     (if cls = ''BaseRequestAuthenticated'' then [''apikey'']
      else if cls = ''BaseRequestUserSpecific'' then [''user_id'']
      else if cls = ''BaseRequestWorkerDriven'' then [''worker_id'']
      else [])"

definition service_reply :: "int \<Rightarrow> pyval \<Rightarrow> transport" where
  "service_reply code body = (\<lambda>call. \<lparr>status_code = code, json = body\<rparr>)"


section \<open>Properties of marshalling\<close>

lemma classify_field_frame:
  "self (classify_field item f) = self f"
  "api_request (classify_field item f) = api_request f"
  "specified_paths (classify_field item f) = specified_paths f"
  "specified_queries (classify_field item f) = specified_queries f"
  "extra_header_keys (classify_field item f) = extra_header_keys f"
  by (simp_all add: classify_field_def Let_def)

lemma fold_classify_field_frame:
  "self (fold classify_field items f) = self f \<and>
   api_request (fold classify_field items f) = api_request f \<and>
   specified_paths (fold classify_field items f) = specified_paths f \<and>
   specified_queries (fold classify_field items f) = specified_queries f \<and>
   extra_header_keys (fold classify_field items f) = extra_header_keys f"
  by (induction items arbitrary: f) (simp_all add: classify_field_frame)

lemma set_dict_keys_dict_set:
  "set (dict_keys (dict_set k v d)) = insert k (set (dict_keys d))"
  by (induction d) (auto simp: dict_keys_def)

lemma classify_field_specified_headers:
  "set (dict_keys (specified_headers f)) \<subseteq> set (dict_keys (specified_headers (classify_field item f))) \<and>
   set (dict_keys (specified_headers (classify_field item f)))
     \<subseteq> set (dict_keys (specified_headers f)) \<union> set (extra_header_keys f)"
  by (auto simp: classify_field_def Let_def set_dict_keys_dict_set)

lemma fold_classify_field_specified_headers:
  "set (dict_keys (specified_headers f)) \<subseteq> set (dict_keys (specified_headers (fold classify_field items f))) \<and>
   set (dict_keys (specified_headers (fold classify_field items f)))
     \<subseteq> set (dict_keys (specified_headers f)) \<union> set (extra_header_keys f)"
proof (induction items arbitrary: f)
  case Nil
  show ?case by simp
next
  case (Cons item items)
  have step: "set (dict_keys (specified_headers f)) \<subseteq> set (dict_keys (specified_headers (classify_field item f)))"
    "set (dict_keys (specified_headers (classify_field item f)))
       \<subseteq> set (dict_keys (specified_headers f)) \<union> set (extra_header_keys f)"
    using classify_field_specified_headers [of f item] by blast+
  have ih: "set (dict_keys (specified_headers (classify_field item f)))
        \<subseteq> set (dict_keys (specified_headers (fold classify_field items (classify_field item f))))"
    "set (dict_keys (specified_headers (fold classify_field items (classify_field item f))))
        \<subseteq> set (dict_keys (specified_headers (classify_field item f))) \<union> set (extra_header_keys f)"
    using Cons.IH [of "classify_field item f"] by (simp_all add: classify_field_frame)
  show ?case using step ih by auto
qed

lemma excluded_fields_after_loop:
  "set (dict_keys (specified_headers (fold classify_field items f))) \<union> set (extra_header_keys f)
     = set (dict_keys (specified_headers f)) \<union> set (extra_header_keys f)"
  using fold_classify_field_specified_headers [of f items] by blast

lemma run_validate_and_prepare_request_frame:
  "snd (run_validate_and_prepare_request c r) = (c, r)"
  by (simp add: run_validate_and_prepare_request_def Let_def fold_classify_field_frame
           split: sum.split)

lemma validate_and_prepare_request_body:
  assumes "validate_and_prepare_request c r = Inr p"
  shows "request_body p =
    (let body = model_dump r
           (set (dict_keys (get_specified_data_keys (header_data_keys c) r))
            \<union> set (dict_keys (get_specified_data_keys (path_data_keys c) r))
            \<union> set (dict_keys (get_specified_data_keys (query_data_keys c) r))
            \<union> set (get_header_fields r))
     in if body = [] then None else Some body)"
proof -
  let ?sh = "get_specified_data_keys (header_data_keys c) r"
  let ?sp = "get_specified_data_keys (path_data_keys c) r"
  let ?sq = "get_specified_data_keys (query_data_keys c) r"
  let ?init = "\<lparr>self = c, api_request = r, specified_headers = ?sh, specified_paths = ?sp,
              specified_queries = ?sq, extra_header_keys = get_header_fields r,
              request_params_dict = [], request_headers_dict = [], request_queries_dict = []\<rparr>"
  let ?f = "fold classify_field (pydict r) ?init"
  have fr: "api_request ?f = r" "specified_paths ?f = ?sp" "specified_queries ?f = ?sq"
    "extra_header_keys ?f = get_header_fields r"
    using fold_classify_field_frame [of "pydict r" ?init] by simp_all
  have ex: "set (dict_keys (specified_headers ?f)) \<union> set (get_header_fields r)
      = set (dict_keys ?sh) \<union> set (get_header_fields r)"
    using excluded_fields_after_loop [of "pydict r" ?init] by simp
  have excl: "set (dict_keys (specified_headers ?f)) \<union> (set (dict_keys ?sp) \<union> (set (dict_keys ?sq) \<union> set (get_header_fields r)))
      = set (dict_keys ?sh) \<union> set (dict_keys ?sp) \<union> set (dict_keys ?sq) \<union> set (get_header_fields r)"
    using ex by blast
  from assms show ?thesis
    unfolding validate_and_prepare_request_def run_validate_and_prepare_request_def
    by (auto simp: Let_def excl fr split: if_splits sum.splits)
qed


text \<open>
  Claim C7. Whenever marshalling succeeds, the body of the parsed request is the list of
  the request's fields that were set explicitly, are not \<^verbatim>\<open>None\<close>, and are claimed
  neither by the header, path or query registries nor by the request's extra header
  fields; when no such field remains the body is \<^verbatim>\<open>None\<close>, never an empty dict.
\<close>

theorem parsed_body_is_unclaimed_remainder:
  assumes "validate_and_prepare_request c r = Inr p"
  shows "request_body p =
     (let remainder =
        filter (\<lambda>kv. fst kv \<in> set (model_fields_set r) \<and> snd kv \<noteq> PNone
                \<and> fst kv \<notin> set (dict_keys (get_specified_data_keys (header_data_keys c) r))
                \<and> fst kv \<notin> set (dict_keys (get_specified_data_keys (path_data_keys c) r))
                \<and> fst kv \<notin> set (dict_keys (get_specified_data_keys (query_data_keys c) r))
                \<and> fst kv \<notin> set (get_header_fields r)) (pydict r)
      in if remainder = [] then None else Some remainder)
    \<and> request_body p \<noteq> Some []"
proof -
  have "(\<lambda>kv. fst kv \<in> set (model_fields_set r) \<and> snd kv \<noteq> PNone
                \<and> fst kv \<notin> set (dict_keys (get_specified_data_keys (header_data_keys c) r))
                \<and> fst kv \<notin> set (dict_keys (get_specified_data_keys (path_data_keys c) r))
                \<and> fst kv \<notin> set (dict_keys (get_specified_data_keys (query_data_keys c) r))
                \<and> fst kv \<notin> set (get_header_fields r))
      = (\<lambda>kv. fst kv \<in> set (model_fields_set r) \<and> snd kv \<noteq> PNone
                \<and> fst kv \<notin> set (dict_keys (get_specified_data_keys (header_data_keys c) r))
                     \<union> set (dict_keys (get_specified_data_keys (path_data_keys c) r))
                     \<union> set (dict_keys (get_specified_data_keys (query_data_keys c) r))
                     \<union> set (get_header_fields r))"
    by auto
  then show ?thesis
    using validate_and_prepare_request_body [OF assms]
    by (simp add: model_dump_def Let_def)
qed

theorem parsed_body_is_unclaimed_remainder_witness:
  "validate_and_prepare_request ai_horde_client generate_async_request =
     Inr \<lparr>endpoint_no_query = ''/v2/generate/async'',
          request_headers = [(''apikey'', PStr ''0000000000'')],
          request_queries = [],
          request_params = [(''prompt'', PStr ''a cat in a hat''), (''models'', PList [PStr ''Deliberate''])],
          request_body = Some [(''prompt'', PStr ''a cat in a hat''), (''models'', PList [PStr ''Deliberate''])]\<rparr>
   \<and> request_body \<lparr>endpoint_no_query = ''/v2/generate/async'',
          request_headers = [(''apikey'', PStr ''0000000000'')],
          request_queries = [],
          request_params = [(''prompt'', PStr ''a cat in a hat''), (''models'', PList [PStr ''Deliberate''])],
          request_body = Some [(''prompt'', PStr ''a cat in a hat''), (''models'', PList [PStr ''Deliberate''])]\<rparr>
       \<noteq> Some []"
proof -
  have h: "validate_and_prepare_request ai_horde_client generate_async_request =
     Inr \<lparr>endpoint_no_query = ''/v2/generate/async'',
          request_headers = [(''apikey'', PStr ''0000000000'')],
          request_queries = [],
          request_params = [(''prompt'', PStr ''a cat in a hat''), (''models'', PList [PStr ''Deliberate''])],
          request_body = Some [(''prompt'', PStr ''a cat in a hat''), (''models'', PList [PStr ''Deliberate''])]\<rparr>"
    by code_simp
  show ?thesis
    using h conjunct2 [OF parsed_body_is_unclaimed_remainder [OF h]] by (rule conjI)
qed


text \<open>
  Claim C8. Marshalling leaves the client and the request object as it found them,
  whether it returns or raises, and marshalling again gives the same outcome: the same
  parsed request, field for field, or the same exception.
\<close>

theorem marshalling_is_pure_and_idempotent:
  assumes "run_validate_and_prepare_request c r = (outcome, c', r')"
  shows "c' = c \<and> r' = r
         \<and> fst (run_validate_and_prepare_request c' r') = outcome
         \<and> validate_and_prepare_request c r = outcome"
proof -
  have "snd (run_validate_and_prepare_request c r) = (c, r)"
    by (rule run_validate_and_prepare_request_frame)
  with assms have same: "c' = c" "r' = r" by simp_all
  from assms have "fst (run_validate_and_prepare_request c r) = outcome" by simp
  with same show ?thesis by (simp add: validate_and_prepare_request_def)
qed

theorem marshalling_is_pure_and_idempotent_witness:
  "run_validate_and_prepare_request ai_horde_client (status_request [(''id_'', PStr ''abc'')]) =
     (Inr \<lparr>endpoint_no_query = ''/v2/generate/status/abc'', request_headers = [],
           request_queries = [], request_params = [], request_body = None\<rparr>,
      ai_horde_client, status_request [(''id_'', PStr ''abc'')])
   \<and> fst (run_validate_and_prepare_request ai_horde_client (status_request [(''id_'', PStr ''abc'')])) =
       Inr \<lparr>endpoint_no_query = ''/v2/generate/status/abc'', request_headers = [],
           request_queries = [], request_params = [], request_body = None\<rparr>"
proof -
  have v: "fst (run_validate_and_prepare_request ai_horde_client (status_request [(''id_'', PStr ''abc'')])) =
       Inr \<lparr>endpoint_no_query = ''/v2/generate/status/abc'', request_headers = [],
           request_queries = [], request_params = [], request_body = None\<rparr>"
    by code_simp
  have h: "run_validate_and_prepare_request ai_horde_client (status_request [(''id_'', PStr ''abc'')]) =
     (Inr \<lparr>endpoint_no_query = ''/v2/generate/status/abc'', request_headers = [],
           request_queries = [], request_params = [], request_body = None\<rparr>,
      ai_horde_client, status_request [(''id_'', PStr ''abc'')])"
    using v run_validate_and_prepare_request_frame [of ai_horde_client "status_request [(''id_'', PStr ''abc'')]"]
    by (simp add: prod_eq_iff)
  show ?thesis
    using h marshalling_is_pure_and_idempotent [OF h] by simp
qed

text \<open>
  Claim C3. When marshalling a request gives a parsed request with a body, \<^verbatim>\<open>get\<close> and
  \<^verbatim>\<open>async_get\<close> (and \<^verbatim>\<open>submit_request\<close>, \<^verbatim>\<open>async_submit_request\<close> for a request whose verb
  is GET) raise \<^verbatim>\<open>RuntimeError\<close> without having issued any HTTP call; and no call issued
  by \<^verbatim>\<open>get\<close> or \<^verbatim>\<open>async_get\<close> ever carries a JSON body.
\<close>

theorem get_with_body_is_fatal:
  "(validate_and_prepare_request c r = Inr p \<and> request_body p \<noteq> None \<longrightarrow>
      get c r expected net = (Inl RuntimeError, [])
      \<and> async_get c r expected net = (Inl RuntimeError, [])
      \<and> (get_http_method r = GET \<longrightarrow>
           submit_request c r expected net = (Inl RuntimeError, [])
           \<and> async_submit_request c r expected net = (Inl RuntimeError, [])))
   \<and> (\<forall>call \<in> set (snd (get c r expected net)) \<union> set (snd (async_get c r expected net)).
         call_json call = None)"
  by (auto simp: get_def async_get_def submit_request_def async_submit_request_def
                 http_request_def Let_def split: sum.splits)

theorem get_with_body_is_fatal_witness:
  "(validate_and_prepare_request ai_horde_client
       (status_request [(''id_'', PStr ''abc''), (''prompt'', PStr ''a cat'')]) =
      Inr \<lparr>endpoint_no_query = ''/v2/generate/status/abc'', request_headers = [],
           request_queries = [], request_params = [(''prompt'', PStr ''a cat'')],
           request_body = Some [(''prompt'', PStr ''a cat'')]\<rparr>
    \<and> submit_request ai_horde_client
         (status_request [(''id_'', PStr ''abc''), (''prompt'', PStr ''a cat'')])
         ''ImageGenerateStatusResponse'' (service_reply 200 (PDict [(''id'', PStr ''abc'')]))
        = (Inl RuntimeError, [])
    \<and> async_get ai_horde_client
         (status_request [(''id_'', PStr ''abc''), (''prompt'', PStr ''a cat'')])
         ''ImageGenerateStatusResponse'' (service_reply 200 (PDict [(''id'', PStr ''abc'')]))
        = (Inl RuntimeError, []))
   \<and> (snd (get ai_horde_client (status_request [(''id_'', PStr ''abc'')])
          ''ImageGenerateStatusResponse'' (service_reply 200 (PDict [(''id'', PStr ''abc'')])))
        = [\<lparr>call_method = GET, call_url = ''/v2/generate/status/abc'', call_headers = [],
            call_params = [], call_json = None, allow_redirects = True\<rparr>]
      \<and> call_json \<lparr>call_method = GET, call_url = ''/v2/generate/status/abc'', call_headers = [],
            call_params = [], call_json = None, allow_redirects = True\<rparr> = None)"
proof -
  let ?withbody = "status_request [(''id_'', PStr ''abc''), (''prompt'', PStr ''a cat'')]"
  let ?net = "service_reply 200 (PDict [(''id'', PStr ''abc'')])"
  let ?call = "\<lparr>call_method = GET, call_url = ''/v2/generate/status/abc'', call_headers = [],
            call_params = [], call_json = None, allow_redirects = True\<rparr>"
  have h: "validate_and_prepare_request ai_horde_client ?withbody =
      Inr \<lparr>endpoint_no_query = ''/v2/generate/status/abc'', request_headers = [],
           request_queries = [], request_params = [(''prompt'', PStr ''a cat'')],
           request_body = Some [(''prompt'', PStr ''a cat'')]\<rparr>"
    by code_simp
  have m: "get_http_method ?withbody = GET" by (simp add: status_request_def)
  have calls: "snd (get ai_horde_client (status_request [(''id_'', PStr ''abc'')])
          ''ImageGenerateStatusResponse'' ?net) = [?call]"
    by code_simp
  have a: "submit_request ai_horde_client ?withbody ''ImageGenerateStatusResponse'' ?net = (Inl RuntimeError, [])
       \<and> async_get ai_horde_client ?withbody ''ImageGenerateStatusResponse'' ?net = (Inl RuntimeError, [])"
    using h m get_with_body_is_fatal [of ai_horde_client ?withbody
        "\<lparr>endpoint_no_query = ''/v2/generate/status/abc'', request_headers = [],
           request_queries = [], request_params = [(''prompt'', PStr ''a cat'')],
           request_body = Some [(''prompt'', PStr ''a cat'')]\<rparr>"
        "''ImageGenerateStatusResponse''" ?net]
    by simp
  have b: "call_json ?call = None"
    using calls get_with_body_is_fatal [of ai_horde_client "status_request [(''id_'', PStr ''abc'')]" _
        "''ImageGenerateStatusResponse''" ?net]
    by simp
  show ?thesis using h a calls b by simp
qed



section \<open>Properties of the response resolver\<close>

lemma new_RequestErrorResponse_Inr:
  "new_RequestErrorResponse j = Inr resp \<Longrightarrow>
     \<exists>kwargs s. j = PDict kwargs \<and> map_of kwargs ''message'' = Some (PStr s) \<and> resp = RequestErrorResponse s None"
  by (cases j) (auto split: option.splits pyval.splits)

lemma singleton_dict:
  "length kvs = Suc 0 \<Longrightarrow> k \<in> set (dict_keys kvs) \<Longrightarrow> \<exists>v. kvs = [(k, v)]"
  by (cases kvs) (auto simp: dict_keys_def)

text \<open>
  Claim C4, as amended. For a reply with status code 400 or more, the resolver returns the
  error response built from the body when the body is a JSON object whose single key is
  \<^verbatim>\<open>message\<close> and whose value is a string; for every other body it raises.
\<close>

theorem error_reply_resolution:
  assumes "status_code rep \<ge> 400"
  shows "(json rep = PDict [(''message'', PStr s)] \<longrightarrow>
            after_request_handling r (ResponseObject rep) expected = Inr (RequestErrorResponse s None))
       \<and> ((\<forall>s'. json rep \<noteq> PDict [(''message'', PStr s')]) \<longrightarrow>
            (\<exists>e. after_request_handling r (ResponseObject rep) expected = Inl e))"
proof (intro conjI impI)
  assume "json rep = PDict [(''message'', PStr s)]"
  with assms show "after_request_handling r (ResponseObject rep) expected = Inr (RequestErrorResponse s None)"
    by (simp add: after_request_handling_def dict_keys_def)
next
  assume other: "\<forall>s'. json rep \<noteq> PDict [(''message'', PStr s')]"
  show "\<exists>e. after_request_handling r (ResponseObject rep) expected = Inl e"
  proof (cases "after_request_handling r (ResponseObject rep) expected")
    case (Inl e)
    then show ?thesis by blast
  next
    case (Inr resp)
    with assms have built: "new_RequestErrorResponse (json rep) = Inr resp"
      and len: "py_len (json rep) = Inr 1" and mem: "py_in ''message'' (json rep) = Inr True"
      by (auto simp: after_request_handling_def Let_def split: sum.splits if_splits)
    from new_RequestErrorResponse_Inr [OF built] obtain kwargs s' where
      j: "json rep = PDict kwargs" and m: "map_of kwargs ''message'' = Some (PStr s')"
      by blast
    from len mem j have "\<exists>v. kwargs = [(''message'', v)]"
      by (auto intro: singleton_dict)
    with m have "kwargs = [(''message'', PStr s')]" by auto
    with j other show ?thesis by blast
  qed
qed

theorem error_reply_resolution_witness:
  "(400::int) \<le> status_code \<lparr>status_code = 400, json = PDict [(''message'', PStr ''invalid apikey'')]\<rparr>
   \<and> after_request_handling generate_async_request
        (ResponseObject \<lparr>status_code = 400, json = PDict [(''message'', PStr ''invalid apikey'')]\<rparr>)
        ''ImageGenerateAsyncResponse'' = Inr (RequestErrorResponse ''invalid apikey'' None)
   \<and> (400::int) \<le> status_code \<lparr>status_code = 404, json = PDict [(''message'', PStr ''x''), (''code'', PStr ''y'')]\<rparr>
   \<and> (\<exists>e. after_request_handling generate_async_request
        (ResponseObject \<lparr>status_code = 404, json = PDict [(''message'', PStr ''x''), (''code'', PStr ''y'')]\<rparr>)
        ''ImageGenerateAsyncResponse'' = Inl e)"
proof -
  have a: "(400::int) \<le> status_code \<lparr>status_code = 400, json = PDict [(''message'', PStr ''invalid apikey'')]\<rparr>"
    by simp
  have b: "(400::int) \<le> status_code \<lparr>status_code = 404, json = PDict [(''message'', PStr ''x''), (''code'', PStr ''y'')]\<rparr>"
    by simp
  show ?thesis
    using a b
      error_reply_resolution [OF a, of "''invalid apikey''" generate_async_request "''ImageGenerateAsyncResponse''"]
      error_reply_resolution [OF b, of "''x''" generate_async_request "''ImageGenerateAsyncResponse''"]
    by simp
qed

theorem error_reply_resolution_counterexample:
  "after_request_handling generate_async_request
     (ResponseObject \<lparr>status_code = 404, json = PDict [(''message'', PNone)]\<rparr>)
     ''ImageGenerateAsyncResponse'' = Inl (ValidationError ''message'')"
  by (simp add: after_request_handling_def dict_keys_def)

text \<open>
  Claim C5. For a reply with status code below 400: when the schema parser raises a
  validation error, and when it returns an object that is no instance of the expected
  class, the resolver returns (it does not raise) an error response carrying the fixed
  mismatch message and the raw body, and in the first case the validation error too.
\<close>

theorem success_reply_mismatch_is_error_response:
  assumes "status_code rep < 400"
  shows "(from_dict_or_array r (json rep) = Inl (ValidationError d) \<longrightarrow>
            after_request_handling r (ResponseObject rep) expected =
              Inr (RequestErrorResponse mismatch_message
                     (Some [(''exception'', OException (ValidationError d)),
                            (''raw_response'', OJson (json rep))])))
       \<and> (from_dict_or_array r (json rep) = Inr obj \<and> \<not> isinstance obj expected \<longrightarrow>
            after_request_handling r (ResponseObject rep) expected =
              Inr (RequestErrorResponse mismatch_message (Some [(''raw_response'', OJson (json rep))])))"
  using assms by (simp add: after_request_handling_def Let_def)

theorem success_reply_mismatch_is_error_response_witness:
  "status_code \<lparr>status_code = 200, json = PDict [(''kudos'', PInt 10)]\<rparr> < 400
   \<and> from_dict_or_array generate_async_request (json \<lparr>status_code = 200, json = PDict [(''kudos'', PInt 10)]\<rparr>)
       = Inl (ValidationError ''id'')
   \<and> after_request_handling generate_async_request
        (ResponseObject \<lparr>status_code = 200, json = PDict [(''kudos'', PInt 10)]\<rparr>) ''ImageGenerateAsyncResponse''
       = Inr (RequestErrorResponse mismatch_message
                (Some [(''exception'', OException (ValidationError ''id'')),
                       (''raw_response'', OJson (PDict [(''kudos'', PInt 10)]))]))
   \<and> status_code \<lparr>status_code = 200, json = PDict [(''id'', PStr ''abc'')]\<rparr> < 400
   \<and> from_dict_or_array generate_async_request (json \<lparr>status_code = 200, json = PDict [(''id'', PStr ''abc'')]\<rparr>)
       = Inr ([''ImageGenerateAsyncResponse'', ''BaseResponse''], PDict [(''id'', PStr ''abc'')])
   \<and> \<not> isinstance ([''ImageGenerateAsyncResponse'', ''BaseResponse''], PDict [(''id'', PStr ''abc'')])
         ''ImageGenerateStatusResponse''
   \<and> after_request_handling generate_async_request
        (ResponseObject \<lparr>status_code = 200, json = PDict [(''id'', PStr ''abc'')]\<rparr>) ''ImageGenerateStatusResponse''
       = Inr (RequestErrorResponse mismatch_message
                (Some [(''raw_response'', OJson (PDict [(''id'', PStr ''abc'')]))]))"
proof -
  let ?bad = "\<lparr>status_code = 200, json = PDict [(''kudos'', PInt 10)]\<rparr>"
  let ?good = "\<lparr>status_code = 200, json = PDict [(''id'', PStr ''abc'')]\<rparr>"
  have a: "status_code ?bad < 400" by simp
  have b: "status_code ?good < 400" by simp
  have pa: "from_dict_or_array generate_async_request (json ?bad) = Inl (ValidationError ''id'')"
    by (simp add: generate_async_request_def parse_id_response_def)
  have pb: "from_dict_or_array generate_async_request (json ?good)
       = Inr ([''ImageGenerateAsyncResponse'', ''BaseResponse''], PDict [(''id'', PStr ''abc'')])"
    by (simp add: generate_async_request_def parse_id_response_def)
  have nb: "\<not> isinstance ([''ImageGenerateAsyncResponse'', ''BaseResponse''], PDict [(''id'', PStr ''abc'')])
         ''ImageGenerateStatusResponse''"
    by (simp add: isinstance_def issubclass_def)
  show ?thesis
    using a b pa pb nb
      success_reply_mismatch_is_error_response [OF a, of generate_async_request "''id''"
        "''ImageGenerateAsyncResponse''"]
      success_reply_mismatch_is_error_response [OF b, of generate_async_request _
        "''ImageGenerateStatusResponse''" "([''ImageGenerateAsyncResponse'', ''BaseResponse''], PDict [(''id'', PStr ''abc'')])"]
    by simp
qed


section \<open>Blocking and non-blocking dispatch; header names\<close>

lemma after_request_handling_decoded_json:
  "after_request_handling r (DecodedJson j) expected = Inl AttributeError"
  by (simp add: after_request_handling_def)

lemma async_methods_never_return:
  "fst (async_get c r expected net) \<noteq> Inr resp"
  "fst (async_post c r expected net) \<noteq> Inr resp"
  "fst (async_put c r expected net) \<noteq> Inr resp"
  "fst (async_patch c r expected net) \<noteq> Inr resp"
  "fst (async_delete c r expected net) \<noteq> Inr resp"
  by (simp_all add: async_get_def async_post_def async_put_def async_patch_def async_delete_def
        Let_def after_request_handling_decoded_json split: sum.split)

text \<open>
  Claim C1, evaluated where the code departs from it. On the same request and the same
  reply (status 200, body \<^verbatim>\<open>{"id": "abc"}\<close>), \<^verbatim>\<open>post\<close> returns the parsed response while
  \<^verbatim>\<open>async_post\<close>, having issued the same call, raises \<^verbatim>\<open>AttributeError\<close>: it hands the
  decoded JSON, not the response object, to the resolver, which calls \<^verbatim>\<open>.json()\<close> on it.
\<close>

theorem async_post_differs_from_post:
  "post ai_horde_client generate_async_request ''ImageGenerateAsyncResponse''
        (service_reply 200 (PDict [(''id'', PStr ''abc'')]))
     = (Inr (ParsedResponse ([''ImageGenerateAsyncResponse'', ''BaseResponse''], PDict [(''id'', PStr ''abc'')])),
        [\<lparr>call_method = POST, call_url = ''/v2/generate/async'',
          call_headers = [(''apikey'', PStr ''0000000000'')], call_params = [],
          call_json = Some [(''prompt'', PStr ''a cat in a hat''), (''models'', PList [PStr ''Deliberate''])],
          allow_redirects = True\<rparr>])
   \<and> async_post ai_horde_client generate_async_request ''ImageGenerateAsyncResponse''
        (service_reply 200 (PDict [(''id'', PStr ''abc'')]))
     = (Inl AttributeError,
        [\<lparr>call_method = POST, call_url = ''/v2/generate/async'',
          call_headers = [(''apikey'', PStr ''0000000000'')], call_params = [],
          call_json = Some [(''prompt'', PStr ''a cat in a hat''), (''models'', PList [PStr ''Deliberate''])],
          allow_redirects = True\<rparr>])"
  by code_simp

text \<open>
  Whatever the registries and the extra header fields are, the keys of the headers of a
  parsed request are names of fields of the request: API names never become keys.
\<close>

lemma classify_field_header_keys:
  "set (dict_keys (request_headers_dict (classify_field item f)))
     \<subseteq> insert (fst item) (set (dict_keys (request_headers_dict f)))"
  by (auto simp: classify_field_def Let_def set_dict_keys_dict_set)

lemma fold_classify_field_header_keys:
  "set (dict_keys (request_headers_dict (fold classify_field items f)))
     \<subseteq> fst ` set items \<union> set (dict_keys (request_headers_dict f))"
proof (induction items arbitrary: f)
  case Nil
  show ?case by simp
next
  case (Cons item items)
  from Cons.IH [of "classify_field item f"] classify_field_header_keys [of item f]
  show ?case by auto
qed

lemma request_headers_are_field_names:
  assumes "validate_and_prepare_request c r = Inr p"
  shows "set (dict_keys (request_headers p)) \<subseteq> set (dict_keys (pydict r))"
proof -
  let ?init = "\<lparr>self = c, api_request = r,
      specified_headers = get_specified_data_keys (header_data_keys c) r,
      specified_paths = get_specified_data_keys (path_data_keys c) r,
      specified_queries = get_specified_data_keys (query_data_keys c) r,
      extra_header_keys = get_header_fields r,
      request_params_dict = [], request_headers_dict = [], request_queries_dict = []\<rparr>"
  from assms have "request_headers p = request_headers_dict (fold classify_field (pydict r) ?init)"
    unfolding validate_and_prepare_request_def run_validate_and_prepare_request_def
    by (auto simp: Let_def split: if_splits sum.splits)
  with fold_classify_field_header_keys [of "pydict r" ?init] show ?thesis
    by (simp add: dict_keys_def)
qed

text \<open>
  Claim C6, evaluated where the code departs from it. The extra header field \<^verbatim>\<open>from_\<close>
  appears in the headers of the parsed request under \<^verbatim>\<open>from_\<close>: the stripped name is
  computed and stored in the local \<open>specified_headers\<close>, and never used as a key.
\<close>

theorem extra_header_keeps_underscore:
  "validate_and_prepare_request ai_horde_client
     (status_request [(''id_'', PStr ''abc''), (''from_'', PStr ''x'')])
   = Inr \<lparr>endpoint_no_query = ''/v2/generate/status/abc'',
          request_headers = [(''from_'', PStr ''x'')],
          request_queries = [], request_params = [], request_body = None\<rparr>"
  by code_simp


section \<open>Path placeholders\<close>

lemma map_sum_Inr_iff:
  "map_sum id g x = Inr out \<longleftrightarrow> (\<exists>y. x = Inr y \<and> out = g y)"
  by (cases x) auto

lemma dropWhile_append_found:
  "dropWhile P cs \<noteq> [] \<Longrightarrow>
     takeWhile P (cs @ s) = takeWhile P cs \<and> dropWhile P (cs @ s) = dropWhile P cs @ s"
  by (induction cs) auto

lemma format_map_field:
  assumes "cs \<noteq> []" and "hd cs \<noteq> CHR ''{''"
  shows "format_map m (CHR ''{'' # cs) =
     (if dropWhile not_close cs = [] then Inl ValueError
      else if \<not> plain_field (takeWhile not_close cs) then Inl OutsideModel
      else if CHR ''{'' \<in> set (takeWhile not_close cs) then Inl ValueError
      else if positional_field (takeWhile not_close cs) then Inl ValueError
      else (case map_of m (takeWhile not_close cs) of
              None \<Rightarrow> Inl (KeyError (takeWhile not_close cs))
            | Some v \<Rightarrow> map_sum id ((@) v) (format_map m (tl (dropWhile not_close cs)))))"
proof -
  from assms obtain d ds where cs: "cs = d # ds" and d: "d \<noteq> CHR ''{''"
    by (cases cs) auto
  show ?thesis
    unfolding cs using d
    by (simp add: format_map.simps(2) [of m "CHR ''{''" "d # ds"] del: takeWhile.simps dropWhile.simps)
qed

lemma format_map_append:
  "format_map m pre = Inr out \<Longrightarrow>
     format_map m (pre @ s) = map_sum id ((@) out) (format_map m s)"
proof (induction m pre arbitrary: out rule: format_map.induct)
  case (1 m)
  then show ?case by (cases "format_map m s") (simp_all add: format_map.simps)
next
  case (2 m c cs)
  show ?case
  proof (cases "c = CHR ''{''")
    case open_brace: True
    show ?thesis
    proof (cases cs)
      case Nil
      with open_brace "2.prems" show ?thesis by (simp add: format_map.simps)
    next
      case (Cons d ds)
      show ?thesis
      proof (cases "d = CHR ''{''")
        case True
        with open_brace Cons "2.prems" obtain y where y: "format_map m ds = Inr y" "out = CHR ''{'' # y"
          by (auto simp: format_map.simps map_sum_Inr_iff)
        from "2.IH"(1) [OF open_brace Cons True y(1)]
        have "format_map m (ds @ s) = map_sum id ((@) y) (format_map m s)" .
        with open_brace Cons True y show ?thesis
          by (cases "format_map m s") (simp_all add: format_map.simps)
      next
        case False
        let ?name = "takeWhile not_close cs"
        let ?rest = "dropWhile not_close cs"
        from open_brace Cons False "2.prems" have
          closed: "?rest \<noteq> []" and plain: "plain_field ?name"
          and noopen: "CHR ''{'' \<notin> set ?name" and named: "\<not> positional_field ?name"
          by (auto simp: format_map.simps split: if_splits)
        from open_brace Cons False "2.prems" closed plain noopen named
        obtain v y where v: "map_of m ?name = Some v" and y: "format_map m (tl ?rest) = Inr y"
          and out: "out = v @ y"
          by (auto simp: format_map.simps map_sum_Inr_iff split: option.splits)
        have ih: "format_map m (tl ?rest @ s) = map_sum id ((@) y) (format_map m s)"
          using "2.IH"(2) [OF open_brace Cons False _ _ _ _ v y] closed plain noopen named
          by (simp add: id_def)
        have app: "takeWhile not_close (cs @ s) = ?name" "dropWhile not_close (cs @ s) = ?rest @ s"
          using dropWhile_append_found [OF closed] by simp_all
        have tl_app: "tl (?rest @ s) = tl ?rest @ s" using closed by simp
        have ne: "cs @ s \<noteq> []" "hd (cs @ s) \<noteq> CHR ''{''"
          using Cons False by simp_all
        have "format_map m ((c # cs) @ s) = map_sum id ((@) v) (format_map m (tl ?rest @ s))"
          using closed plain noopen named v
          by (auto simp: open_brace format_map_field [OF ne] app tl_app simp del: takeWhile.simps dropWhile.simps)
        with ih out show ?thesis by (cases "format_map m s") simp_all
      qed
    qed
  next
    case not_open: False
    show ?thesis
    proof (cases "c = CHR ''}''")
      case close_brace: True
      show ?thesis
      proof (cases cs)
        case Nil
        with not_open close_brace "2.prems" show ?thesis by (simp add: format_map.simps)
      next
        case (Cons d ds)
        with not_open close_brace "2.prems" have d: "d = CHR ''}''"
          by (auto simp: format_map.simps split: if_splits)
        with not_open close_brace Cons "2.prems" obtain y where
          y: "format_map m ds = Inr y" "out = CHR ''}'' # y"
          by (auto simp: format_map.simps map_sum_Inr_iff)
        from "2.IH"(3) [OF not_open close_brace Cons d y(1)]
        have "format_map m (ds @ s) = map_sum id ((@) y) (format_map m s)" .
        with not_open close_brace Cons d y show ?thesis
          by (cases "format_map m s") (simp_all add: format_map.simps)
      qed
    next
      case False
      with not_open "2.prems" obtain y where y: "format_map m cs = Inr y" "out = c # y"
        by (auto simp: format_map.simps map_sum_Inr_iff)
      from "2.IH"(4) [OF not_open False y(1)]
      have "format_map m (cs @ s) = map_sum id ((@) y) (format_map m s)" .
      with not_open False y show ?thesis
        by (cases "format_map m s") (simp_all add: format_map.simps)
    qed
  qed
qed


lemma takeWhile_until_close:
  "CHR ''}'' \<notin> set n \<Longrightarrow>
     takeWhile not_close (n @ CHR ''}'' # suffix) = n \<and>
     dropWhile not_close (n @ CHR ''}'' # suffix) = CHR ''}'' # suffix"
  by (induction n) (auto simp: not_close_def)

lemma format_map_missing_key:
  assumes "format_map m prefix = Inr out"
    and "map_of m n = None"
    and "plain_field n" and "\<not> positional_field n"
    and "CHR ''{'' \<notin> set n" and "CHR ''}'' \<notin> set n"
  shows "format_map m (prefix @ CHR ''{'' # n @ CHR ''}'' # suffix) = Inl (KeyError n)"
proof -
  from assms(4) obtain d ds where n: "n = d # ds" 
    by (cases n) (auto simp: positional_field_def)
  have tk: "takeWhile not_close (n @ CHR ''}'' # suffix) = n"
    and dr: "dropWhile not_close (n @ CHR ''}'' # suffix) = CHR ''}'' # suffix"
    using takeWhile_until_close [OF assms(6)] by blast+
  have ne: "n @ CHR ''}'' # suffix \<noteq> []" "hd (n @ CHR ''}'' # suffix) \<noteq> CHR ''{''"
    using n assms(5) by auto
  have "format_map m (CHR ''{'' # n @ CHR ''}'' # suffix) = Inl (KeyError n)"
    unfolding format_map_field [OF ne] tk dr
    using assms(2,3,4,5) by simp
  then show ?thesis
    using format_map_append [OF assms(1), of "CHR ''{'' # n @ CHR ''}'' # suffix"] by simp
qed

lemma map_sum_Inl_iff:
  "map_sum id g x = Inl e \<longleftrightarrow> x = Inl e"
  by (cases x) auto

lemma format_map_field_append:
  assumes "cs \<noteq> []" and "hd cs \<noteq> CHR ''{''" and "dropWhile not_close cs \<noteq> []"
  shows "format_map m (CHR ''{'' # cs @ s) =
     (if \<not> plain_field (takeWhile not_close cs) then Inl OutsideModel
      else if CHR ''{'' \<in> set (takeWhile not_close cs) then Inl ValueError
      else if positional_field (takeWhile not_close cs) then Inl ValueError
      else (case map_of m (takeWhile not_close cs) of
              None \<Rightarrow> Inl (KeyError (takeWhile not_close cs))
            | Some v \<Rightarrow> map_sum id ((@) v) (format_map m (tl (dropWhile not_close cs) @ s))))"
proof -
  have ne: "cs @ s \<noteq> []" "hd (cs @ s) \<noteq> CHR ''{''"
    using assms(1,2) by simp_all
  have app: "takeWhile not_close (cs @ s) = takeWhile not_close cs"
    "dropWhile not_close (cs @ s) = dropWhile not_close cs @ s"
    using dropWhile_append_found [OF assms(3)] by simp_all
  have tl_app: "tl (dropWhile not_close cs @ s) = tl (dropWhile not_close cs) @ s"
    using assms(3) by simp
  have found: "dropWhile not_close cs @ s \<noteq> []"
    using assms(3) by simp
  show ?thesis
    unfolding format_map_field [OF ne] app tl_app if_not_P [OF found] by (rule refl)
qed

lemma format_map_KeyError_append:
  "format_map m p = Inl (KeyError k) \<Longrightarrow> format_map m (p @ s) = Inl (KeyError k)"
proof (induction m p rule: format_map.induct)
  case (1 m)
  then show ?case by (simp add: format_map.simps)
next
  case (2 m c cs)
  show ?case
  proof (cases "c = CHR ''{''")
    case open_brace: True
    show ?thesis
    proof (cases cs)
      case Nil
      with open_brace "2.prems" show ?thesis by (simp add: format_map.simps)
    next
      case (Cons d ds)
      show ?thesis
      proof (cases "d = CHR ''{''")
        case True
        with open_brace Cons "2.prems" have "format_map m ds = Inl (KeyError k)"
          by (simp add: format_map.simps map_sum_Inl_iff)
        from "2.IH"(1) [OF open_brace Cons True this]
        have "format_map m (ds @ s) = Inl (KeyError k)" .
        with open_brace Cons True show ?thesis by (simp add: format_map.simps)
      next
        case False
        let ?name = "takeWhile not_close cs"
        let ?rest = "dropWhile not_close cs"
        have ne: "cs \<noteq> []" "hd cs \<noteq> CHR ''{''" using Cons False by simp_all
        have whole: "format_map m (CHR ''{'' # cs) = Inl (KeyError k)"
          using "2.prems" open_brace by simp
        from whole have closed: "?rest \<noteq> []"
          unfolding format_map_field [OF ne] by (auto split: if_splits)
        from whole closed have plain: "plain_field ?name"
          and noopen: "CHR ''{'' \<notin> set ?name" and named: "\<not> positional_field ?name"
          unfolding format_map_field [OF ne] by (auto split: if_splits)
        show ?thesis
        proof (cases "map_of m ?name")
          case None
          with whole closed plain noopen named have "k = ?name"
            unfolding format_map_field [OF ne] by (auto split: if_splits)
          with None plain noopen named show ?thesis
            using format_map_field_append [OF ne closed, of m s] open_brace by simp
        next
          case (Some v)
          with whole closed plain noopen named have "format_map m (tl ?rest) = Inl (KeyError k)"
            unfolding format_map_field [OF ne] by (auto simp: map_sum_Inl_iff split: if_splits)
          from "2.IH"(2) [OF open_brace Cons False _ _ _ _ Some this] closed plain noopen named
          have "format_map m (tl ?rest @ s) = Inl (KeyError k)" by simp
          with Some plain noopen named show ?thesis
            using format_map_field_append [OF ne closed, of m s] open_brace by simp
        qed
      qed
    qed
  next
    case not_open: False
    show ?thesis
    proof (cases "c = CHR ''}''")
      case close_brace: True
      show ?thesis
      proof (cases cs)
        case Nil
        with not_open close_brace "2.prems" show ?thesis by (simp add: format_map.simps)
      next
        case (Cons d ds)
        with not_open close_brace "2.prems" have d: "d = CHR ''}''"
          by (auto simp: format_map.simps split: if_splits)
        with not_open close_brace Cons "2.prems" have "format_map m ds = Inl (KeyError k)"
          by (simp add: format_map.simps map_sum_Inl_iff)
        from "2.IH"(3) [OF not_open close_brace Cons d this]
        have "format_map m (ds @ s) = Inl (KeyError k)" .
        with not_open close_brace Cons d show ?thesis by (simp add: format_map.simps)
      qed
    next
      case False
      with not_open "2.prems" have "format_map m cs = Inl (KeyError k)"
        by (simp add: format_map.simps map_sum_Inl_iff)
      from "2.IH"(4) [OF not_open False this]
      have "format_map m (cs @ s) = Inl (KeyError k)" .
      with not_open False show ?thesis by (simp add: format_map.simps)
    qed
  qed
qed


lemma format_map_other_mapping:
  "format_map m' p = Inr out' \<Longrightarrow>
     (\<exists>out. format_map m p = Inr out) \<or> (\<exists>k. format_map m p = Inl (KeyError k))"
proof (induction m' p arbitrary: out' rule: format_map.induct)
  case (1 m')
  show ?case by (simp add: format_map.simps)
next
  case (2 m' c cs)
  show ?case
  proof (cases "c = CHR ''{''")
    case open_brace: True
    show ?thesis
    proof (cases cs)
      case Nil
      with open_brace "2.prems" show ?thesis by (simp add: format_map.simps)
    next
      case (Cons d ds)
      show ?thesis
      proof (cases "d = CHR ''{''")
        case True
        with open_brace Cons "2.prems" obtain y where "format_map m' ds = Inr y"
          by (auto simp: format_map.simps map_sum_Inr_iff)
        from "2.IH"(1) [OF open_brace Cons True this]
        have "(\<exists>out. format_map m ds = Inr out) \<or> (\<exists>k. format_map m ds = Inl (KeyError k))" .
        with open_brace Cons True show ?thesis
          by (auto simp: format_map.simps)
      next
        case False
        let ?name = "takeWhile not_close cs"
        let ?rest = "dropWhile not_close cs"
        have ne: "cs \<noteq> []" "hd cs \<noteq> CHR ''{''" using Cons False by simp_all
        have whole: "format_map m' (CHR ''{'' # cs) = Inr out'"
          using "2.prems" open_brace by simp
        from whole have closed: "?rest \<noteq> []"
          unfolding format_map_field [OF ne] by (auto split: if_splits)
        from whole closed have plain: "plain_field ?name"
          and noopen: "CHR ''{'' \<notin> set ?name" and named: "\<not> positional_field ?name"
          unfolding format_map_field [OF ne] by (auto split: if_splits)
        from whole closed plain noopen named obtain v' y where
          v': "map_of m' ?name = Some v'" and y: "format_map m' (tl ?rest) = Inr y"
          unfolding format_map_field [OF ne]
          by (auto simp: map_sum_Inr_iff split: if_splits option.splits)
        from "2.IH"(2) [OF open_brace Cons False _ _ _ _ v' y] closed plain noopen named
        have ih: "(\<exists>out. format_map m (tl ?rest) = Inr out)
                \<or> (\<exists>k. format_map m (tl ?rest) = Inl (KeyError k))"
          by simp
        have here: "format_map m (CHR ''{'' # cs) =
            (case map_of m ?name of
               None \<Rightarrow> Inl (KeyError ?name)
             | Some v \<Rightarrow> map_sum id ((@) v) (format_map m (tl ?rest)))"
          unfolding format_map_field [OF ne] using closed plain noopen named by auto
        show ?thesis
        proof (cases "map_of m ?name")
          case None
          with here open_brace show ?thesis by simp
        next
          case (Some v)
          with here ih open_brace show ?thesis by auto
        qed
      qed
    qed
  next
    case not_open: False
    show ?thesis
    proof (cases "c = CHR ''}''")
      case close_brace: True
      show ?thesis
      proof (cases cs)
        case Nil
        with not_open close_brace "2.prems" show ?thesis by (simp add: format_map.simps)
      next
        case (Cons d ds)
        with not_open close_brace "2.prems" have d: "d = CHR ''}''"
          by (auto simp: format_map.simps split: if_splits)
        with not_open close_brace Cons "2.prems" obtain y where "format_map m' ds = Inr y"
          by (auto simp: format_map.simps map_sum_Inr_iff)
        from "2.IH"(3) [OF not_open close_brace Cons d this]
        have "(\<exists>out. format_map m ds = Inr out) \<or> (\<exists>k. format_map m ds = Inl (KeyError k))" .
        with not_open close_brace Cons d show ?thesis
          by (auto simp: format_map.simps)
      qed
    next
      case False
      with not_open "2.prems" obtain y where "format_map m' cs = Inr y"
        by (auto simp: format_map.simps map_sum_Inr_iff)
      from "2.IH"(4) [OF not_open False this]
      have "(\<exists>out. format_map m cs = Inr out) \<or> (\<exists>k. format_map m cs = Inl (KeyError k))" .
      with not_open False show ?thesis
        by (auto simp: format_map.simps)
    qed
  qed
qed

lemma format_map_unmatched_placeholder:
  assumes "format_map m' prefix = Inr out'"
    and "map_of m n = None"
    and "plain_field n" and "\<not> positional_field n"
    and "CHR ''{'' \<notin> set n" and "CHR ''}'' \<notin> set n"
  shows "\<exists>k. format_map m (prefix @ CHR ''{'' # n @ CHR ''}'' # suffix) = Inl (KeyError k)"
proof -
  from format_map_other_mapping [OF assms(1), of m] show ?thesis
  proof
    assume "\<exists>out. format_map m prefix = Inr out"
    then obtain out where "format_map m prefix = Inr out" ..
    from format_map_missing_key [OF this assms(2-6)] show ?thesis by blast
  next
    assume "\<exists>k. format_map m prefix = Inl (KeyError k)"
    then obtain k where "format_map m prefix = Inl (KeyError k)" ..
    from format_map_KeyError_append [OF this] show ?thesis by blast
  qed
qed

lemma dispatch_after_failed_marshalling:
  assumes "validate_and_prepare_request c r = Inl e"
  shows "submit_request c r expected net = (Inl e, [])"
    and "async_submit_request c r expected net = (Inl e, [])"
  using assms
  by (simp_all add: submit_request_def async_submit_request_def get_def async_get_def post_def
        async_post_def put_def async_put_def patch_def async_patch_def delete_def async_delete_def
        split: http_method.split)


lemma specified_key_has_value:
  assumes "kv \<in> set (get_specified_data_keys data_keys r)"
  shows "\<exists>v. getattr r (fst kv) = Inr v"
  using assms by (auto simp: get_specified_data_keys_def hasattr_def getattr_def)

text \<open>
  Claim C2, as amended. When no path field of the request has a value, marshalling succeeds
  and the endpoint is the template as it stands, placeholders included. When at least one
  has, and the template holds a placeholder \<^verbatim>\<open>{n}\<close> (after a prefix that is itself a
  well-formed template: it formats under some mapping) whose name is the API name of none
  of the path fields that have a value, marshalling raises \<^verbatim>\<open>KeyError\<close>, and the
  dispatchers pass the exception on without having issued a call.
\<close>

theorem unfilled_placeholder:
  assumes "issubclass (request_class r) ''BaseRequest''"
  shows "(get_specified_data_keys (path_data_keys c) r = [] \<longrightarrow>
            (\<exists>p. validate_and_prepare_request c r = Inr p \<and> endpoint_no_query p = get_endpoint_url r))
       \<and> (get_specified_data_keys (path_data_keys c) r \<noteq> []
           \<and> get_endpoint_url r = prefix @ ''{'' @ n @ ''}'' @ suffix
           \<and> format_map m' prefix = Inr out'
           \<and> plain_field n \<and> \<not> positional_field n
           \<and> CHR ''{'' \<notin> set n \<and> CHR ''}'' \<notin> set n
           \<and> n \<notin> set (map snd (get_specified_data_keys (path_data_keys c) r))
          \<longrightarrow> (\<exists>k. validate_and_prepare_request c r = Inl (KeyError k)
                 \<and> submit_request c r expected net = (Inl (KeyError k), [])
                 \<and> async_submit_request c r expected net = (Inl (KeyError k), [])))"
proof (intro conjI impI)
  assume "get_specified_data_keys (path_data_keys c) r = []"
  with assms show "\<exists>p. validate_and_prepare_request c r = Inr p \<and> endpoint_no_query p = get_endpoint_url r"
    by (simp add: validate_and_prepare_request_def run_validate_and_prepare_request_def Let_def)
next
  let ?sp = "get_specified_data_keys (path_data_keys c) r"
  assume h: "?sp \<noteq> []
           \<and> get_endpoint_url r = prefix @ ''{'' @ n @ ''}'' @ suffix
           \<and> format_map m' prefix = Inr out'
           \<and> plain_field n \<and> \<not> positional_field n
           \<and> CHR ''{'' \<notin> set n \<and> CHR ''}'' \<notin> set n
           \<and> n \<notin> set (map snd ?sp)"
  then obtain kv rest where sp: "?sp = kv # rest" by (cases ?sp) auto
  then have "kv \<in> set ?sp" by simp
  from specified_key_has_value [OF this] obtain v where v: "getattr r (fst kv) = Inr v" ..
  from h sp have "n \<noteq> snd kv" by auto
  then have miss: "map_of [(snd kv, py_str v)] n = None" by simp
  from h have url: "get_endpoint_url r = prefix @ CHR ''{'' # n @ CHR ''}'' # suffix" by simp
  from h have wf: "format_map m' prefix = Inr out'" and name: "plain_field n" "\<not> positional_field n"
    "CHR ''{'' \<notin> set n" "CHR ''}'' \<notin> set n" by simp_all
  from format_map_unmatched_placeholder [OF wf miss name, of suffix]
  obtain k where "format_map [(snd kv, py_str v)] (get_endpoint_url r) = Inl (KeyError k)"
    unfolding url ..
  with v have "substitute_paths r (kv # rest) (get_endpoint_url r) = Inl (KeyError k)"
    by simp
  with assms sp have fails: "validate_and_prepare_request c r = Inl (KeyError k)"
    by (simp add: validate_and_prepare_request_def run_validate_and_prepare_request_def Let_def)
  from fails dispatch_after_failed_marshalling [OF fails, of expected net]
  show "\<exists>k. validate_and_prepare_request c r = Inl (KeyError k)
          \<and> submit_request c r expected net = (Inl (KeyError k), [])
          \<and> async_submit_request c r expected net = (Inl (KeyError k), [])"
    by blast
qed

theorem unfilled_placeholder_witness:
  "issubclass (request_class (status_request [(''id_'', PNone)])) ''BaseRequest''
   \<and> get_specified_data_keys (path_data_keys ai_horde_client) (status_request [(''id_'', PNone)]) = []
   \<and> (\<exists>p. validate_and_prepare_request ai_horde_client (status_request [(''id_'', PNone)]) = Inr p
          \<and> endpoint_no_query p = ''/v2/generate/status/{id}'')
   \<and> issubclass (request_class ((status_request [(''id_'', PStr ''abc'')])
          \<lparr>get_endpoint_url := ''/v2/generate/status/{id}/{worker_id}''\<rparr>)) ''BaseRequest''
   \<and> get_specified_data_keys (path_data_keys ai_horde_client)
         ((status_request [(''id_'', PStr ''abc'')])\<lparr>get_endpoint_url := ''/v2/generate/status/{id}/{worker_id}''\<rparr>)
        = [(''id_'', ''id'')]
   \<and> format_map [(''id'', ''abc'')] ''/v2/generate/status/{id}/'' = Inr ''/v2/generate/status/abc/''
   \<and> (\<exists>k. validate_and_prepare_request ai_horde_client
         ((status_request [(''id_'', PStr ''abc'')])\<lparr>get_endpoint_url := ''/v2/generate/status/{id}/{worker_id}''\<rparr>)
        = Inl (KeyError k)
      \<and> submit_request ai_horde_client
         ((status_request [(''id_'', PStr ''abc'')])\<lparr>get_endpoint_url := ''/v2/generate/status/{id}/{worker_id}''\<rparr>)
         ''ImageGenerateStatusResponse'' (service_reply 200 (PDict [(''id'', PStr ''abc'')]))
        = (Inl (KeyError k), []))"
proof -
  let ?r1 = "status_request [(''id_'', PNone)]"
  let ?r2 = "(status_request [(''id_'', PStr ''abc'')])\<lparr>get_endpoint_url := ''/v2/generate/status/{id}/{worker_id}''\<rparr>"
  let ?net = "service_reply 200 (PDict [(''id'', PStr ''abc'')])"
  have c1: "issubclass (request_class ?r1) ''BaseRequest''"
    by (simp add: status_request_def issubclass_def)
  have c2: "issubclass (request_class ?r2) ''BaseRequest''"
    by (simp add: status_request_def issubclass_def)
  have s1: "get_specified_data_keys (path_data_keys ai_horde_client) ?r1 = []"
    by code_simp
  have s2: "get_specified_data_keys (path_data_keys ai_horde_client) ?r2 = [(''id_'', ''id'')]"
    by code_simp
  have u1: "get_endpoint_url ?r1 = ''/v2/generate/status/{id}''"
    by (simp add: status_request_def)
  have u2: "get_endpoint_url ?r2 = ''/v2/generate/status/{id}/'' @ ''{'' @ ''worker_id'' @ ''}'' @ []"
    by (simp add: status_request_def)
  have f2: "format_map [(''id'', ''abc'')] ''/v2/generate/status/{id}/'' = Inr ''/v2/generate/status/abc/''"
    by code_simp
  have n2: "plain_field ''worker_id'' \<and> \<not> positional_field ''worker_id''
      \<and> CHR ''{'' \<notin> set ''worker_id'' \<and> CHR ''}'' \<notin> set ''worker_id''
      \<and> ''worker_id'' \<notin> set (map snd [(''id_'', ''id'')])"
    by code_simp
  have a: "\<exists>p. validate_and_prepare_request ai_horde_client ?r1 = Inr p
          \<and> endpoint_no_query p = ''/v2/generate/status/{id}''"
    using s1 u1 unfilled_placeholder [OF c1, of ai_horde_client] by simp
  have b: "\<exists>k. validate_and_prepare_request ai_horde_client ?r2 = Inl (KeyError k)
      \<and> submit_request ai_horde_client ?r2 ''ImageGenerateStatusResponse'' ?net = (Inl (KeyError k), [])"
    using s2 u2 f2 n2
      unfilled_placeholder [OF c2, of ai_horde_client "''/v2/generate/status/{id}/''" "''worker_id''" "[]"
        "[(''id'', ''abc'')]" "''/v2/generate/status/abc/''" "''ImageGenerateStatusResponse''" ?net]
    by auto
  show ?thesis using c1 c2 s1 s2 f2 a b by blast
qed

theorem unfilled_placeholder_counterexample:
  "validate_and_prepare_request ai_horde_client (status_request [(''id_'', PNone)])
     = Inr \<lparr>endpoint_no_query = ''/v2/generate/status/{id}'', request_headers = [],
            request_queries = [], request_params = [(''id_'', PNone)], request_body = None\<rparr>
   \<and> snd (get ai_horde_client (status_request [(''id_'', PNone)]) ''ImageGenerateStatusResponse''
            (service_reply 200 (PDict [(''id'', PStr ''abc'')])))
     = [\<lparr>call_method = GET, call_url = ''/v2/generate/status/{id}'', call_headers = [],
         call_params = [], call_json = None, allow_redirects = True\<rparr>]"
  by code_simp


section \<open>Properties of the recovery handler\<close>

lemma map_of_dict_set:
  "map_of (dict_set k v d) = (map_of d)(k \<mapsto> v)"
  by (induction d) (auto simp: fun_eq_iff)

lemma distinct_dict_set:
  "distinct (dict_keys d) \<Longrightarrow> distinct (dict_keys (dict_set k v d))"
proof (induction d)
  case Nil
  show ?case by (simp add: dict_keys_def)
next
  case (Cons p d)
  have keys: "set (dict_keys (dict_set k v d)) = insert k (set (dict_keys d))"
    by (rule set_dict_keys_dict_set)
  from Cons show ?case
    using keys by (auto simp: dict_keys_def)
qed

lemma getattr_cases:
  "getattr r k = (if hasattr r k then Inr (the (map_of (pydict r) k)) else Inl AttributeError)"
  by (auto simp: getattr_def hasattr_def split: option.splits)

lemma copy_fields_present:
  "\<forall>k \<in> set ks. hasattr r k \<Longrightarrow>
     \<exists>params. copy_fields r ks acc = Inr params
        \<and> set (dict_keys params) = set ks \<union> set (dict_keys acc)
        \<and> (distinct (dict_keys acc) \<longrightarrow> distinct (dict_keys params))
        \<and> (\<forall>k. map_of params k = (if k \<in> set ks then map_of (pydict r) k else map_of acc k))"
proof (induction ks arbitrary: acc)
  case Nil
  show ?case by simp
next
  case (Cons key ks)
  from Cons.prems have here: "hasattr r key" and rest: "\<forall>k \<in> set ks. hasattr r k" by simp_all
  from here obtain v where v: "map_of (pydict r) key = Some v" by (auto simp: hasattr_def)
  then have step: "copy_fields r (key # ks) acc = copy_fields r ks (dict_set key v acc)"
    by (simp add: getattr_def)
  from Cons.IH [OF rest, of "dict_set key v acc"] obtain params where
    p: "copy_fields r ks (dict_set key v acc) = Inr params"
    and k: "set (dict_keys params) = set ks \<union> set (dict_keys (dict_set key v acc))"
    and d: "distinct (dict_keys (dict_set key v acc)) \<longrightarrow> distinct (dict_keys params)"
    and m: "\<forall>k. map_of params k = (if k \<in> set ks then map_of (pydict r) k else map_of (dict_set key v acc) k)"
    by blast
  have "set (dict_keys params) = set (key # ks) \<union> set (dict_keys acc)"
    using k by (auto simp: set_dict_keys_dict_set)
  moreover have "distinct (dict_keys acc) \<longrightarrow> distinct (dict_keys params)"
    using d distinct_dict_set [of acc key v] by blast
  moreover have "\<forall>k. map_of params k = (if k \<in> set (key # ks) then map_of (pydict r) k else map_of acc k)"
    using m v by (simp add: map_of_dict_set)
  ultimately show ?case using step p by simp
qed


lemma copy_fields_append:
  "copy_fields r (ks @ ks') acc =
     (case copy_fields r ks acc of Inl e \<Rightarrow> Inl e | Inr params \<Rightarrow> copy_fields r ks' params)"
  by (induction ks arbitrary: acc) (simp_all split: sum.splits)

lemma copy_fields_missing:
  "\<not> (\<forall>k \<in> set ks. hasattr r k) \<Longrightarrow> copy_fields r ks acc = Inl AttributeError"
proof (induction ks arbitrary: acc)
  case Nil
  then show ?case by simp
next
  case (Cons key ks)
  show ?case
  proof (cases "hasattr r key")
    case True
    with Cons.prems have "\<not> (\<forall>k \<in> set ks. hasattr r k)" by simp
    from Cons.IH [OF this] True show ?thesis by (simp add: getattr_cases)
  next
    case False
    then show ?thesis by (simp add: getattr_cases)
  qed
qed

lemma map_base_types_copy_fields:
  "map_base_types model_fields r rt bases acc =
     copy_fields r (concat (map model_fields (filter (issubclass rt) bases))) acc"
  by (induction bases arbitrary: acc) (simp_all add: copy_fields_append split: sum.splits)


lemma map_base_types_returns:
  assumes "\<forall>k \<in> set (concat (map model_fields (filter (issubclass rt) bases))). hasattr r k"
  shows "\<exists>params. map_base_types model_fields r rt bases acc = Inr params"
  using copy_fields_present [OF assms, of acc] unfolding map_base_types_copy_fields by blast

lemma map_base_types_raises:
  assumes "\<not> (\<forall>k \<in> set (concat (map model_fields (filter (issubclass rt) bases))). hasattr r k)"
  shows "map_base_types model_fields r rt bases acc = Inl AttributeError"
  using copy_fields_missing [OF assms, of acc] unfolding map_base_types_copy_fields .

text \<open>
  Claim C9, as amended. Let \<open>keys\<close> be the model fields of those of the three mappable base
  types that the recovery request type is a subclass of, in order. If the request has all
  of them as attributes, the two loops build a dict with exactly these keys, each with the
  value it has on the request. If the request lacks one of them, \<^verbatim>\<open>getattr\<close> raises
  \<^verbatim>\<open>AttributeError\<close>; nothing is skipped.
\<close>

theorem recovery_parameters:
  "let keys = concat (map model_fields
                 (filter (issubclass (get_recovery_request_type r)) mappable_base_types)) in
   if \<forall>k \<in> set keys. hasattr r k
   then \<exists>params. map_base_types model_fields r (get_recovery_request_type r) mappable_base_types [] = Inr params
          \<and> set (dict_keys params) = set keys
          \<and> distinct (dict_keys params)
          \<and> (\<forall>k \<in> set keys. map_of params k = map_of (pydict r) k)
   else map_base_types model_fields r (get_recovery_request_type r) mappable_base_types [] = Inl AttributeError"
proof -
  define keys where
    "keys = concat (map model_fields
                 (filter (issubclass (get_recovery_request_type r)) mappable_base_types))"
  have loop: "map_base_types model_fields r (get_recovery_request_type r) mappable_base_types []
      = copy_fields r keys []"
    unfolding keys_def by (rule map_base_types_copy_fields)
  have "if \<forall>k \<in> set keys. hasattr r k
     then \<exists>params. copy_fields r keys [] = Inr params
          \<and> set (dict_keys params) = set keys
          \<and> distinct (dict_keys params)
          \<and> (\<forall>k \<in> set keys. map_of params k = map_of (pydict r) k)
     else copy_fields r keys [] = Inl AttributeError"
  proof (cases "\<forall>k \<in> set keys. hasattr r k")
    case True
    from copy_fields_present [OF True, of "[]"] obtain params where
      p: "copy_fields r keys [] = Inr params"
      and k: "set (dict_keys params) = set keys \<union> set (dict_keys ([] :: pydict))"
      and d: "distinct (dict_keys ([] :: pydict)) \<longrightarrow> distinct (dict_keys params)"
      and m: "\<forall>k. map_of params k = (if k \<in> set keys then map_of (pydict r) k else map_of ([] :: pydict) k)"
      by blast
    have "set (dict_keys params) = set keys" using k by (simp add: dict_keys_def)
    moreover have "distinct (dict_keys params)" using d by (simp add: dict_keys_def)
    moreover have "\<forall>k \<in> set keys. map_of params k = map_of (pydict r) k" using m by simp
    ultimately show ?thesis unfolding if_P [OF True] using p by blast
  next
    case False
    show ?thesis unfolding if_not_P [OF False] by (rule copy_fields_missing [OF False])
  qed
  then show ?thesis
    unfolding Let_def loop keys_def .
qed


theorem recovery_parameters_witness:
  "concat (map base_model_fields
        (filter (issubclass (get_recovery_request_type generate_async_request)) mappable_base_types))
      = [''apikey'']
   \<and> hasattr generate_async_request ''apikey''
   \<and> (\<exists>params. map_base_types base_model_fields generate_async_request
          (get_recovery_request_type generate_async_request) mappable_base_types [] = Inr params
        \<and> set (dict_keys params) = {''apikey''}
        \<and> map_of params ''apikey'' = Some (PStr ''0000000000''))
   \<and> concat (map base_model_fields
        (filter (issubclass (get_recovery_request_type (status_request [(''id_'', PStr ''abc'')])))
           mappable_base_types))
      = [''user_id'']
   \<and> \<not> hasattr (status_request [(''id_'', PStr ''abc'')]) ''user_id''
   \<and> map_base_types base_model_fields (status_request [(''id_'', PStr ''abc'')])
          (get_recovery_request_type (status_request [(''id_'', PStr ''abc'')])) mappable_base_types []
        = Inl AttributeError"
proof -
  let ?r1 = generate_async_request
  let ?r2 = "status_request [(''id_'', PStr ''abc'')]"
  have k1: "concat (map base_model_fields
        (filter (issubclass (get_recovery_request_type ?r1)) mappable_base_types)) = [''apikey'']"
    by code_simp
  have k2: "concat (map base_model_fields
        (filter (issubclass (get_recovery_request_type ?r2)) mappable_base_types)) = [''user_id'']"
    by code_simp
  have h1: "hasattr ?r1 ''apikey''" by code_simp
  have v1: "map_of (pydict ?r1) ''apikey'' = Some (PStr ''0000000000'')" by code_simp
  have h2: "\<not> hasattr ?r2 ''user_id''" by code_simp
  have a: "\<exists>params. map_base_types base_model_fields ?r1
          (get_recovery_request_type ?r1) mappable_base_types [] = Inr params
        \<and> set (dict_keys params) = {''apikey''}
        \<and> map_of params ''apikey'' = Some (PStr ''0000000000'')"
    using recovery_parameters [of base_model_fields ?r1] h1 v1
    unfolding Let_def k1 by auto
  have b: "map_base_types base_model_fields ?r2 (get_recovery_request_type ?r2) mappable_base_types []
        = Inl AttributeError"
    using recovery_parameters [of base_model_fields ?r2] h2
    unfolding Let_def k2 by simp
  show ?thesis
    using k1 k2 h1 h2 a b by blast
qed

theorem recovery_parameters_counterexample:
  "map_base_types base_model_fields (status_request [(''id_'', PStr ''abc'')])
      (get_recovery_request_type (status_request [(''id_'', PStr ''abc'')])) mappable_base_types []
     = Inl AttributeError
   \<and> issubclass (get_recovery_request_type (status_request [(''id_'', PStr ''abc'')])) ''BaseRequestUserSpecific''
   \<and> base_model_fields ''BaseRequestUserSpecific'' = [''user_id'']
   \<and> \<not> hasattr (status_request [(''id_'', PStr ''abc'')]) ''user_id''"
  by code_simp

text \<open>
  Claim C10, as amended. On every path \<^verbatim>\<open>__exit__\<close> leaves the handler as it was and prints
  at most the line about the exception in flight; the recovery parameters are a local that
  is neither stored nor returned. It returns \<^verbatim>\<open>None\<close>, which is falsy, so that the exception
  in flight propagates, on every path except one: with an exception in flight and recovery
  enabled, a mapped field missing from the request makes it raise \<^verbatim>\<open>AttributeError\<close>.
\<close>

theorem exit_hook_frame:
  "snd (exit_hook model_fields h exc) = (h, case exc of None \<Rightarrow> [] | Some e \<Rightarrow> [ErrorLine e])
   \<and> fst (exit_hook model_fields h exc) =
       (if exc \<noteq> None \<and> is_recovery_enabled (handler_request h)
           \<and> \<not> (\<forall>k \<in> set (concat (map model_fields
                      (filter (issubclass (get_recovery_request_type (handler_request h)))
                         mappable_base_types))).
                  hasattr (handler_request h) k)
        then Inl AttributeError else Inr PNone)
   \<and> (\<forall>v e. fst (exit_hook model_fields h exc) = Inr v \<longrightarrow>
          \<not> truthy v \<and> propagated e (fst (exit_hook model_fields h exc)) = Some e)"
proof -
  define present where
    "present = (\<forall>k \<in> set (concat (map model_fields
                      (filter (issubclass (get_recovery_request_type (handler_request h)))
                         mappable_base_types))).
                  hasattr (handler_request h) k)"
  define loop where
    "loop = map_base_types model_fields (handler_request h)
              (get_recovery_request_type (handler_request h)) mappable_base_types []"
  have ok: "present \<Longrightarrow> \<exists>params. loop = Inr params"
    unfolding present_def loop_def by (rule map_base_types_returns)
  have bad: "\<not> present \<Longrightarrow> loop = Inl AttributeError"
    unfolding present_def loop_def by (rule map_base_types_raises)
  have hook: "exit_hook model_fields h exc =
     (case exc of
        None \<Rightarrow> (Inr PNone, h, [])
      | Some exc_val \<Rightarrow>
          if \<not> is_recovery_enabled (handler_request h) then (Inr PNone, h, [ErrorLine exc_val])
          else (case loop of
                  Inl e \<Rightarrow> (Inl e, h, [ErrorLine exc_val])
                | Inr params \<Rightarrow> (Inr PNone, h, [ErrorLine exc_val])))"
    unfolding exit_hook_def loop_def Let_def ..
  have frame: "snd (exit_hook model_fields h exc) = (h, case exc of None \<Rightarrow> [] | Some e \<Rightarrow> [ErrorLine e])"
    unfolding hook by (simp split: option.split sum.split)
  have result: "fst (exit_hook model_fields h exc) =
       (if exc \<noteq> None \<and> is_recovery_enabled (handler_request h) \<and> \<not> present
        then Inl AttributeError else Inr PNone)"
  proof (cases present)
    case True
    from ok [OF True] obtain params where "loop = Inr params" ..
    with True show ?thesis unfolding hook by (simp split: option.split)
  next
    case False
    from bad [OF False] False show ?thesis unfolding hook by (simp split: option.split)
  qed
  have falsy: "\<forall>v e. fst (exit_hook model_fields h exc) = Inr v \<longrightarrow>
          \<not> truthy v \<and> propagated e (fst (exit_hook model_fields h exc)) = Some e"
    unfolding result by (simp add: propagated_def)
  show ?thesis
    using frame result falsy unfolding present_def by blast
qed

theorem exit_hook_frame_witness:
  "fst (exit_hook base_model_fields \<lparr>handler_request = generate_async_request\<rparr> (Some RuntimeError)) = Inr PNone
   \<and> \<not> truthy PNone
   \<and> propagated RuntimeError
        (fst (exit_hook base_model_fields \<lparr>handler_request = generate_async_request\<rparr> (Some RuntimeError)))
       = Some RuntimeError
   \<and> snd (exit_hook base_model_fields \<lparr>handler_request = generate_async_request\<rparr> (Some RuntimeError))
       = (\<lparr>handler_request = generate_async_request\<rparr>, [ErrorLine RuntimeError])"
proof -
  let ?h = "\<lparr>handler_request = generate_async_request\<rparr>"
  have r: "fst (exit_hook base_model_fields ?h (Some RuntimeError)) = Inr PNone"
    by code_simp
  from exit_hook_frame [of base_model_fields ?h "Some RuntimeError"]
  have s: "snd (exit_hook base_model_fields ?h (Some RuntimeError)) = (?h, [ErrorLine RuntimeError])"
    and f: "\<forall>v e. fst (exit_hook base_model_fields ?h (Some RuntimeError)) = Inr v \<longrightarrow>
          \<not> truthy v \<and> propagated e (fst (exit_hook base_model_fields ?h (Some RuntimeError))) = Some e"
    by simp_all
  from f r have "\<not> truthy PNone"
    and "propagated RuntimeError (fst (exit_hook base_model_fields ?h (Some RuntimeError))) = Some RuntimeError"
    by blast+
  with r s show ?thesis by blast
qed

theorem exit_hook_frame_counterexample:
  "fst (exit_hook base_model_fields \<lparr>handler_request = status_request [(''id_'', PStr ''abc'')]\<rparr>
          (Some RuntimeError)) = Inl AttributeError
   \<and> propagated RuntimeError
        (fst (exit_hook base_model_fields \<lparr>handler_request = status_request [(''id_'', PStr ''abc'')]\<rparr>
               (Some RuntimeError))) = Some AttributeError"
  by code_simp

end
